theory Spec2Isabelle
  imports Main "HOL-Library.Word"
begin

unbundle bit_operations_syntax

section \<open>Buffers, errors and the block-cipher primitive\<close>

text \<open>
  A Node \<open>Buffer\<close> is a list of bytes. Reading a buffer out of range gives
  \<open>undefined\<close>, which \<open>^\<close> coerces to 0; writing out of range is ignored.
  \<open>Buffer.allocUnsafe(n)\<close> returns \<open>n\<close> bytes of whatever the memory held: the
  memory is the parameter \<open>junk\<close> of every function that allocates.
\<close>

type_synonym byte = "8 word"
type_synonym buffer = "byte list"

datatype error = AssertionError | Error string

definition rd :: "buffer \<Rightarrow> nat \<Rightarrow> byte" where
  "rd b i = (if i < length b then b ! i else 0)"

definition window :: "buffer \<Rightarrow> nat \<Rightarrow> nat \<Rightarrow> buffer" where
  "window b pos n = map (\<lambda>i. rd b (pos + i)) [0..<n]"

fun write_at :: "buffer \<Rightarrow> nat \<Rightarrow> buffer \<Rightarrow> buffer" where
  "write_at out pos [] = out"
| "write_at out pos (x # xs) = write_at (out[pos := x]) (Suc pos) xs"

definition allocUnsafe :: "(nat \<Rightarrow> byte) \<Rightarrow> nat \<Rightarrow> buffer" where
  "allocUnsafe junk n = map junk [0..<n]"

definition copy :: "buffer \<Rightarrow> buffer \<Rightarrow> nat \<Rightarrow> nat \<Rightarrow> nat \<Rightarrow> buffer" where
  \<comment> \<open>\<open>source.copy(target, targetStart, sourceStart, sourceEnd)\<close>: the new target\<close>
  "copy source target targetStart sourceStart sourceEnd =
     write_at target targetStart (take (sourceEnd - sourceStart) (drop sourceStart source))"

definition xor_blocks :: "buffer \<Rightarrow> nat \<Rightarrow> buffer \<Rightarrow> nat \<Rightarrow> nat \<Rightarrow> buffer" where
  \<comment> \<open>\<open>for (i = 0; i < n; i++) a[apos + i] ^ b[bpos + i]\<close>\<close>
  "xor_blocks a apos b bpos n = map (\<lambda>i. rd a (apos + i) XOR rd b (bpos + i)) [0..<n]"

text \<open>
  The block-cipher context \<open>ctx\<close> is outside the repository's files: it is taken
  as a parameter, a block size with a pair of block functions under a key. \<open>init\<close>
  stores the key, \<open>destroy\<close> wipes it; \<open>encrypt(in, ipos, out, opos)\<close> reads one block
  and writes one block.
\<close>

record ctx =
  blockSize :: nat
  enc :: "buffer \<Rightarrow> buffer \<Rightarrow> buffer"
  dec :: "buffer \<Rightarrow> buffer \<Rightarrow> buffer"
  key :: buffer
  destroyed :: bool

definition ctx_init :: "ctx \<Rightarrow> buffer \<Rightarrow> ctx" where
  "ctx_init c k = c\<lparr>key := k, destroyed := False\<rparr>"

definition ctx_destroy :: "ctx \<Rightarrow> ctx" where
  "ctx_destroy c = c\<lparr>key := [], destroyed := True\<rparr>"

definition ctx_encrypt :: "ctx \<Rightarrow> buffer \<Rightarrow> nat \<Rightarrow> buffer \<Rightarrow> nat \<Rightarrow> buffer" where
  "ctx_encrypt c inp ipos out opos =
     write_at out opos (enc c (key c) (window inp ipos (blockSize c)))"

definition ctx_decrypt :: "ctx \<Rightarrow> buffer \<Rightarrow> nat \<Rightarrow> buffer \<Rightarrow> nat \<Rightarrow> buffer" where
  "ctx_decrypt c inp ipos out opos =
     write_at out opos (dec c (key c) (window inp ipos (blockSize c)))"

section \<open>Cipher modes (lib/js/ciphers/modes.js)\<close>

text \<open>
  The classes of the file. \<open>this.prev\<close> is a reference: it aliases the object's own
  \<open>this.block\<close> (\<open>This_block\<close>) or holds another buffer (the IV, an input or an
  output, which the caller is taken not to overwrite while the cipher is live).
\<close>

datatype cls =
  ECBCipher | ECBDecipher | CBCCipher | CBCDecipher | CTRCipher | CTRDecipher
  | CFBCipher | CFBDecipher | OFBCipher | OFBDecipher

datatype bufref = This_block | Buf buffer

record cipher =
  cls_of :: cls
  ctx :: ctx
  padding :: bool
  block :: buffer
  bpos :: int
  lastb :: buffer
  chained :: bool
  encrypt :: bool
  prev :: bufref
  ppos :: nat
  state :: buffer
  ctr :: buffer

definition deref :: "cipher \<Rightarrow> bufref \<Rightarrow> buffer" where
  "deref s r = (case r of This_block \<Rightarrow> block s | Buf b \<Rightarrow> b)"

definition is_block_cipher :: "cls \<Rightarrow> bool" where
  "is_block_cipher k = (k = ECBCipher \<or> k = CBCCipher)"

definition is_block_decipher :: "cls \<Rightarrow> bool" where
  "is_block_decipher k = (k = ECBDecipher \<or> k = CBCDecipher)"

definition new :: "(nat \<Rightarrow> byte) \<Rightarrow> cls \<Rightarrow> ctx \<Rightarrow> cipher" where
  \<comment> \<open>the constructors: \<open>super(ctx, padding)\<close> and each class's own fields\<close>
  "new junk k c =
     \<lparr>cls_of = k, ctx = c, padding = is_block_decipher k,
      block = allocUnsafe junk (blockSize c), bpos = - 1, lastb = [],
      chained = (k = CBCCipher \<or> k = CBCDecipher), encrypt = (k \<noteq> CFBDecipher),
      prev = Buf [], ppos = 0, state = [], ctr = []\<rparr>"

subsection \<open>The per-class hooks \<open>_init\<close>, \<open>_update\<close>, \<open>_final\<close>\<close>

definition Block_init :: "cipher \<Rightarrow> buffer \<Rightarrow> (error + unit) \<times> cipher" where
  \<comment> \<open>\<open>BlockCipher._init\<close> and \<open>BlockDecipher._init\<close> (the same text)\<close>
  "Block_init s iv =
     (if (if chained s then length iv = length (block s) else length iv = 0)
      then (Inr (), s\<lparr>prev := Buf iv, ppos := 0\<rparr>)
      else (Inl AssertionError, s))"

definition CTR_init :: "(nat \<Rightarrow> byte) \<Rightarrow> cipher \<Rightarrow> buffer \<Rightarrow> (error + unit) \<times> cipher" where
  "CTR_init junk s iv =
     (if length iv = length (block s)
      then (Inr (), s\<lparr>state := allocUnsafe junk (length (block s)), ctr := iv\<rparr>)
      else (Inl AssertionError, s))"

definition CFB_init :: "(nat \<Rightarrow> byte) \<Rightarrow> cipher \<Rightarrow> buffer \<Rightarrow> (error + unit) \<times> cipher" where
  "CFB_init junk s iv =
     (if length iv = length (block s)
      then (Inr (), s\<lparr>state := allocUnsafe junk (length (block s)), prev := Buf iv, ppos := 0\<rparr>)
      else (Inl AssertionError, s))"

definition OFB_init :: "cipher \<Rightarrow> buffer \<Rightarrow> (error + unit) \<times> cipher" where
  "OFB_init s iv =
     (if length iv = length (block s)
      then (Inr (), s\<lparr>state := iv\<rparr>)
      else (Inl AssertionError, s))"

definition dispatch_init :: "(nat \<Rightarrow> byte) \<Rightarrow> cipher \<Rightarrow> buffer \<Rightarrow> (error + unit) \<times> cipher" where
  "dispatch_init junk s iv =
     (case cls_of s of
        ECBCipher \<Rightarrow> Block_init s iv | CBCCipher \<Rightarrow> Block_init s iv
      | ECBDecipher \<Rightarrow> Block_init s iv | CBCDecipher \<Rightarrow> Block_init s iv
      | CTRCipher \<Rightarrow> CTR_init junk s iv | CTRDecipher \<Rightarrow> CTR_init junk s iv
      | CFBCipher \<Rightarrow> CFB_init junk s iv | CFBDecipher \<Rightarrow> CFB_init junk s iv
      | OFBCipher \<Rightarrow> OFB_init s iv | OFBDecipher \<Rightarrow> OFB_init s iv)"

definition BlockCipher_update :: "cipher \<Rightarrow> bufref \<Rightarrow> nat \<Rightarrow> buffer \<Rightarrow> nat \<Rightarrow> cipher \<times> buffer" where
  "BlockCipher_update s inp ipos out opos =
     (if chained s then
        (let bs = length (block s);
             out1 = write_at out opos (xor_blocks (deref s inp) ipos (deref s (prev s)) (ppos s) bs);
             out2 = ctx_encrypt (ctx s) out1 opos out1 opos
         in (s\<lparr>prev := Buf out2, ppos := opos\<rparr>, out2))
      else (s, ctx_encrypt (ctx s) (deref s inp) ipos out opos))"

definition BlockDecipher_update :: "cipher \<Rightarrow> bufref \<Rightarrow> nat \<Rightarrow> buffer \<Rightarrow> nat \<Rightarrow> cipher \<times> buffer" where
  "BlockDecipher_update s inp ipos out opos =
     (if chained s then
        (let bs = length (block s);
             out1 = ctx_decrypt (ctx s) (deref s inp) ipos out opos;
             out2 = write_at out1 opos (xor_blocks out1 opos (deref s (prev s)) (ppos s) bs)
         in (s\<lparr>prev := inp, ppos := ipos\<rparr>, out2))
      else (s, ctx_decrypt (ctx s) (deref s inp) ipos out opos))"

fun incr_le :: "buffer \<Rightarrow> buffer" where
  \<comment> \<open>the loop of \<open>_increment\<close>, on the counter read from its last byte\<close>
  "incr_le [] = []"
| "incr_le (x # xs) = (if x \<noteq> 0xff then (x + 1) # xs else 0 # incr_le xs)"

definition CTR_increment :: "buffer \<Rightarrow> buffer" where
  "CTR_increment c = rev (incr_le (rev c))"

definition CTR_update :: "cipher \<Rightarrow> bufref \<Rightarrow> nat \<Rightarrow> buffer \<Rightarrow> nat \<Rightarrow> cipher \<times> buffer" where
  "CTR_update s inp ipos out opos =
     (let bs = length (block s);
          st = ctx_encrypt (ctx s) (ctr s) 0 (state s) 0;
          s1 = s\<lparr>state := st, ctr := CTR_increment (ctr s)\<rparr>
      in (s1, write_at out opos (xor_blocks (deref s inp) ipos st 0 bs)))"

definition CFB_update :: "cipher \<Rightarrow> bufref \<Rightarrow> nat \<Rightarrow> buffer \<Rightarrow> nat \<Rightarrow> cipher \<times> buffer" where
  "CFB_update s inp ipos out opos =
     (let bs = length (block s);
          st = ctx_encrypt (ctx s) (deref s (prev s)) (ppos s) (state s) 0;
          out1 = write_at out opos (xor_blocks (deref s inp) ipos st 0 bs)
      in if encrypt s then (s\<lparr>state := st, prev := Buf out1, ppos := opos\<rparr>, out1)
         else (s\<lparr>state := st, prev := inp, ppos := ipos\<rparr>, out1))"

definition OFB_update :: "cipher \<Rightarrow> bufref \<Rightarrow> nat \<Rightarrow> buffer \<Rightarrow> nat \<Rightarrow> cipher \<times> buffer" where
  "OFB_update s inp ipos out opos =
     (let bs = length (block s);
          st = ctx_encrypt (ctx s) (state s) 0 (state s) 0
      in (s\<lparr>state := st\<rparr>, write_at out opos (xor_blocks (deref s inp) ipos st 0 bs)))"

definition dispatch_update :: "cipher \<Rightarrow> bufref \<Rightarrow> nat \<Rightarrow> buffer \<Rightarrow> nat \<Rightarrow> cipher \<times> buffer" where
  "dispatch_update s inp ipos out opos =
     (case cls_of s of
        ECBCipher \<Rightarrow> BlockCipher_update s inp ipos out opos
      | CBCCipher \<Rightarrow> BlockCipher_update s inp ipos out opos
      | ECBDecipher \<Rightarrow> BlockDecipher_update s inp ipos out opos
      | CBCDecipher \<Rightarrow> BlockDecipher_update s inp ipos out opos
      | CTRCipher \<Rightarrow> CTR_update s inp ipos out opos
      | CTRDecipher \<Rightarrow> CTR_update s inp ipos out opos
      | CFBCipher \<Rightarrow> CFB_update s inp ipos out opos
      | CFBDecipher \<Rightarrow> CFB_update s inp ipos out opos
      | OFBCipher \<Rightarrow> OFB_update s inp ipos out opos
      | OFBDecipher \<Rightarrow> OFB_update s inp ipos out opos)"

subsection \<open>\<open>Cipher.init\<close>, \<open>Cipher.update\<close>, \<open>Cipher.final\<close>\<close>

definition js_slice :: "buffer \<Rightarrow> int \<Rightarrow> int \<Rightarrow> buffer" where
  \<comment> \<open>\<open>buf.slice(start, fin)\<close>: a negative index counts from the end\<close>
  "js_slice b start fin =
     (let n = int (length b);
          st = (if start < 0 then max 0 (n + start) else min start n);
          en = (if fin < 0 then max 0 (n + fin) else min fin n)
      in take (nat (en - st)) (drop (nat st) b))"

definition fill :: "buffer \<Rightarrow> byte \<Rightarrow> nat \<Rightarrow> nat \<Rightarrow> buffer" where
  \<comment> \<open>\<open>buf.fill(value, start, fin)\<close>\<close>
  "fill b v start fin = map (\<lambda>i. if start \<le> i \<and> i < fin then v else b ! i) [0..<length b]"

definition Cipher_init :: "(nat \<Rightarrow> byte) \<Rightarrow> cipher \<Rightarrow> buffer \<Rightarrow> buffer option \<Rightarrow> (error + unit) \<times> cipher" where
  "Cipher_init junk s k iv =
     (let iv' = (case iv of None \<Rightarrow> [] | Some v \<Rightarrow> v);
          s1 = s\<lparr>ctx := ctx_init (ctx s) k, bpos := 0, lastb := []\<rparr>
      in dispatch_init junk s1 iv')"

function update_loop ::
  "nat \<Rightarrow> cipher \<Rightarrow> buffer \<Rightarrow> nat \<Rightarrow> nat \<Rightarrow> buffer \<Rightarrow> nat \<Rightarrow> cipher \<times> nat \<times> nat \<times> buffer" where
  \<comment> \<open>\<open>while (ilen >= bs) { this._update(input, ipos, output, opos); ... }\<close>. The block
      size of a cipher is positive; with 0 the source computes \<open>ilen % 0\<close> and never
      gets here, and the loop of the model stops at once\<close>
  "update_loop bs s input ilen ipos output opos =
     (if 0 < bs \<and> bs \<le> ilen then
        (case dispatch_update s (Buf input) ipos output opos of
           (s', output') \<Rightarrow> update_loop bs s' input (ilen - bs) (ipos + bs) output' (opos + bs))
      else (s, ilen, ipos, output))"
  by pat_completeness auto
termination
  by (relation "measure (\<lambda>(bs, s, input, ilen, ipos, output, opos). ilen)") auto

declare update_loop.simps [simp del]

definition update_rest ::
  "(nat \<Rightarrow> byte) \<Rightarrow> cipher \<Rightarrow> buffer \<Rightarrow> nat \<Rightarrow> nat \<Rightarrow> nat \<Rightarrow> nat \<Rightarrow> (error + buffer) \<times> cipher" where
  \<comment> \<open>\<open>Cipher.update\<close> from \<open>const output = Buffer.allocUnsafe(olen)\<close> on\<close>
  "update_rest junk s input bs olen ilen ipos =
     (let output = allocUnsafe junk olen;
          (s3, output3, opos) =
            (if ipos \<noteq> 0
             then (case dispatch_update s This_block 0 output 0 of (s', output') \<Rightarrow> (s', output', bs))
             else (s, output, 0));
          (s4, ilen4, ipos4, output4) = update_loop bs s3 input ilen ipos output3 opos;
          s5 = (if ilen4 > 0 then s4\<lparr>block := copy input (block s4) 0 ipos4 (ipos4 + ilen4)\<rparr> else s4)
      in if \<not> padding s5 then (Inr output4, s5)
         else (Inr (js_slice output4 0 (int olen - int bs)), s5\<lparr>lastb := output4\<rparr>))"

definition Cipher_update :: "(nat \<Rightarrow> byte) \<Rightarrow> cipher \<Rightarrow> buffer \<Rightarrow> (error + buffer) \<times> cipher" where
  "Cipher_update junk s input =
     (if bpos s = - 1 then (Inl (Error ''Cipher not initialized.''), s)
      else
        (let bs = length (block s);
             bpos0 = nat (bpos s);
             ilen = length input;
             olen = ilen - ilen mod bs;
             s1 = s\<lparr>bpos := (bpos s + int ilen) mod int bs\<rparr>
         in if bpos0 > 0 then
              (let want = (if bs - bpos0 > ilen then ilen else bs - bpos0);
                   s2 = s1\<lparr>block := copy input (block s1) bpos0 0 want\<rparr>
               in if bpos0 + want < bs then (Inr [], s2)
                  else update_rest junk s2 input bs (olen + bs) (ilen - want) want)
            else update_rest junk s1 input bs olen ilen 0))"

definition BlockCipher_final :: "cipher \<Rightarrow> (error + buffer) \<times> cipher" where
  "BlockCipher_final s =
     (let bs = length (block s);
          left = int bs - bpos s;
          blk = fill (block s) (of_int left) (nat (bpos s)) bs
      in case dispatch_update s (Buf blk) 0 blk 0 of
           (s1, blk') \<Rightarrow> (Inr blk', s1\<lparr>prev := Buf []\<rparr>))"

fun pad_loop :: "buffer \<Rightarrow> byte \<Rightarrow> nat \<Rightarrow> nat \<Rightarrow> error + nat" where
  \<comment> \<open>\<open>for (i = 0; i < left; i++) { end -= 1; if (block[end] !== left) throw ... }\<close>:
      the iterations still to run, and \<open>end\<close>\<close>
  "pad_loop blk left 0 e = Inr e"
| "pad_loop blk left (Suc k) e =
     (if e = 0 \<or> rd blk (e - 1) \<noteq> left then Inl (Error ''Bad decrypt (padding).'')
      else pad_loop blk left k (e - 1))"

definition BlockDecipher_final :: "cipher \<Rightarrow> (error + buffer) \<times> cipher" where
  "BlockDecipher_final s =
     (let bs = length (block s);
          s1 = s\<lparr>prev := Buf []\<rparr>
      in if length (lastb s1) = 0 then (Inl (Error ''Bad decrypt (no data).''), s1)
         else
           (let blk = lastb s1;
                s2 = s1\<lparr>lastb := []\<rparr>
            in if bpos s2 \<noteq> 0 then (Inl (Error ''Bad decrypt (trailing bytes).''), s2)
               else
                 (let start = int (length blk) - int bs;
                      left = rd blk (length blk - 1)
                  in if left = 0 \<or> unat left > bs then (Inl (Error ''Bad decrypt (padding).''), s2)
                     else (case pad_loop blk left (unat left) (length blk) of
                             Inl e \<Rightarrow> (Inl e, s2)
                           | Inr e \<Rightarrow> (Inr (js_slice blk start (int e)), s2)))))"

definition CTR_final :: "cipher \<Rightarrow> (error + buffer) \<times> cipher" where
  "CTR_final s =
     (let st = ctx_encrypt (ctx s) (ctr s) 0 (state s) 0;
          out = xor_blocks (block s) 0 st 0 (nat (bpos s))
      in (Inr out, s\<lparr>state := [], ctr := []\<rparr>))"

definition CFB_final :: "cipher \<Rightarrow> (error + buffer) \<times> cipher" where
  "CFB_final s =
     (let st = ctx_encrypt (ctx s) (deref s (prev s)) (ppos s) (state s) 0;
          out = xor_blocks (block s) 0 st 0 (nat (bpos s))
      in (Inr out, s\<lparr>state := [], prev := Buf []\<rparr>))"

definition OFB_final :: "cipher \<Rightarrow> (error + buffer) \<times> cipher" where
  "OFB_final s =
     (let st = ctx_encrypt (ctx s) (state s) 0 (state s) 0;
          out = xor_blocks (block s) 0 st 0 (nat (bpos s))
      in (Inr out, s\<lparr>state := []\<rparr>))"

definition dispatch_final :: "cipher \<Rightarrow> (error + buffer) \<times> cipher" where
  "dispatch_final s =
     (case cls_of s of
        ECBCipher \<Rightarrow> BlockCipher_final s | CBCCipher \<Rightarrow> BlockCipher_final s
      | ECBDecipher \<Rightarrow> BlockDecipher_final s | CBCDecipher \<Rightarrow> BlockDecipher_final s
      | CTRCipher \<Rightarrow> CTR_final s | CTRDecipher \<Rightarrow> CTR_final s
      | CFBCipher \<Rightarrow> CFB_final s | CFBDecipher \<Rightarrow> CFB_final s
      | OFBCipher \<Rightarrow> OFB_final s | OFBDecipher \<Rightarrow> OFB_final s)"

definition Cipher_final :: "cipher \<Rightarrow> (error + buffer) \<times> cipher" where
  \<comment> \<open>\<open>try { ret = this._final() } finally { destroy; fill; bpos = -1; last = EMPTY }\<close>:
      the clean-up runs whether \<open>_final\<close> returned or threw\<close>
  "Cipher_final s =
     (if bpos s = - 1 then (Inl (Error ''Cipher not initialized.''), s)
      else (case dispatch_final s of
              (ret, s1) \<Rightarrow>
                (ret, s1\<lparr>ctx := ctx_destroy (ctx s1),
                         block := fill (block s1) 0 0 (length (block s1)),
                         bpos := - 1, lastb := []\<rparr>)))"

subsection \<open>Driving a cipher: \<open>init\<close>, some \<open>update\<close>s, one \<open>final\<close>\<close>

fun update_all :: "(nat \<Rightarrow> byte) \<Rightarrow> cipher \<Rightarrow> buffer list \<Rightarrow> (error + buffer list) \<times> cipher" where
  "update_all junk s [] = (Inr [], s)"
| "update_all junk s (x # xs) =
     (case Cipher_update junk s x of
        (Inl e, s') \<Rightarrow> (Inl e, s')
      | (Inr out, s') \<Rightarrow>
          (case update_all junk s' xs of
             (Inl e, s'') \<Rightarrow> (Inl e, s'')
           | (Inr outs, s'') \<Rightarrow> (Inr (out # outs), s'')))"

definition crypt ::
  "(nat \<Rightarrow> byte) \<Rightarrow> cls \<Rightarrow> ctx \<Rightarrow> buffer \<Rightarrow> buffer option \<Rightarrow> buffer list \<Rightarrow> error + buffer list" where
  \<comment> \<open>\<open>c = new Cls(ctx); c.init(key, iv); [c.update(x) for x of chunks] ++ [c.final()]\<close>\<close>
  "crypt junk k c ky iv chunks =
     (case Cipher_init junk (new junk k c) ky iv of
        (Inl e, s) \<Rightarrow> Inl e
      | (Inr u, s) \<Rightarrow>
          (case update_all junk s chunks of
             (Inl e, s') \<Rightarrow> Inl e
           | (Inr outs, s') \<Rightarrow>
               (case Cipher_final s' of
                  (Inl e, s'') \<Rightarrow> Inl e
                | (Inr out, s'') \<Rightarrow> Inr (outs @ [out]))))"

subsection \<open>The factory \<open>get\<close>\<close>

definition get :: "string \<Rightarrow> bool \<Rightarrow> error + cls" where
  "get name enc_flag =
     (if name = ''ecb'' \<or> name = ''ECB'' then Inr (if enc_flag then ECBCipher else ECBDecipher)
      else if name = ''cbc'' \<or> name = ''CBC'' then Inr (if enc_flag then CBCCipher else CBCDecipher)
      else if name = ''ctr'' \<or> name = ''CTR'' then Inr (if enc_flag then CTRCipher else CTRDecipher)
      else if name = ''cfb'' \<or> name = ''CFB'' then Inr (if enc_flag then CFBCipher else CFBDecipher)
      else if name = ''ofb'' \<or> name = ''OFB'' then Inr (if enc_flag then OFBCipher else OFBDecipher)
      else Inl (Error (''Unknown mode: '' @ name @ ''.'')))"

text \<open>
  A sample block cipher with 4-byte blocks for the examples: it reverses the block and
  adds the first key byte to every byte; \<open>dec\<close> undoes \<open>enc\<close>.
\<close>

definition sample_ctx :: ctx where
  "sample_ctx =
     \<lparr>blockSize = 4,
      enc = (\<lambda>k b. map (\<lambda>x. x + rd k 0) (rev b)),
      dec = (\<lambda>k b. rev (map (\<lambda>x. x - rd k 0) b)),
      key = [], destroyed = False\<rparr>"

subsection \<open>Case folding, for the names \<open>get\<close> accepts\<close>

definition to_lower :: "char \<Rightarrow> char" where
  "to_lower c =
     (case map_of (zip ''ABCDEFGHIJKLMNOPQRSTUVWXYZ'' ''abcdefghijklmnopqrstuvwxyz'') c of
        Some d \<Rightarrow> d | None \<Rightarrow> c)"

definition to_upper :: "char \<Rightarrow> char" where
  "to_upper c =
     (case map_of (zip ''abcdefghijklmnopqrstuvwxyz'' ''ABCDEFGHIJKLMNOPQRSTUVWXYZ'') c of
        Some d \<Rightarrow> d | None \<Rightarrow> c)"

definition mode_names :: "string list" where
  "mode_names = [''ecb'', ''cbc'', ''ctr'', ''cfb'', ''ofb'']"

definition mode_class :: "string \<Rightarrow> bool \<Rightarrow> cls option" where
  \<comment> \<open>the class the specification gives a mode name written in lower case\<close>
  "mode_class name enc_flag =
     (if name = ''ecb'' then Some (if enc_flag then ECBCipher else ECBDecipher)
      else if name = ''cbc'' then Some (if enc_flag then CBCCipher else CBCDecipher)
      else if name = ''ctr'' then Some (if enc_flag then CTRCipher else CTRDecipher)
      else if name = ''cfb'' then Some (if enc_flag then CFBCipher else CFBDecipher)
      else if name = ''ofb'' then Some (if enc_flag then OFBCipher else OFBDecipher)
      else None)"

section \<open>The curve, big-number and hash facades\<close>

text \<open>
  The curve library, the big-number library and the hash are outside the repository's
  files; the engine's code is checked against them as parameters. A curve is a record of
  its constants and operations over an abstract type of points. Decoding and hashing may
  throw (a sum with the error on the left); point arithmetic and encoding are total.
  \<open>clamp(raw)\<close> masks the bytes of \<open>raw\<close> in place and returns \<open>raw\<close>: the field
  \<open>clamp\<close> gives the new bytes. The fields from \<open>curve_p\<close> on belong to the Weierstrass
  curve of the Schnorr engine (\<open>red\<close> numbers are residues modulo \<open>curve_p\<close>).
\<close>

datatype endianness = LE | BE

record 'p curve =
  curve_size :: nat
  curve_scalarLength :: nat
  curve_n :: nat
  curve_hc :: nat
  curve_context :: bool
  curve_prefix :: buffer
  curve_endian :: endianness
  curve_g :: 'p
  decodePoint :: "buffer \<Rightarrow> error + 'p"
  decodeScalar :: "buffer \<Rightarrow> error + nat"
  decodeInt :: "buffer \<Rightarrow> error + nat"
  encodeInt :: "nat \<Rightarrow> buffer"
  encodeScalar :: "nat \<Rightarrow> buffer"
  splitHash :: "buffer \<Rightarrow> error + buffer \<times> buffer"
  isClamped :: "buffer \<Rightarrow> bool"
  clamp :: "buffer \<Rightarrow> buffer"
  point_encode :: "'p \<Rightarrow> buffer"
  point_mul :: "'p \<Rightarrow> nat \<Rightarrow> 'p"
  point_mulBlind :: "'p \<Rightarrow> nat \<Rightarrow> 'p"
  point_mulAdd :: "'p \<Rightarrow> nat \<Rightarrow> 'p \<Rightarrow> nat \<Rightarrow> 'p"
  point_add :: "'p \<Rightarrow> 'p \<Rightarrow> 'p"
  point_dbl :: "'p \<Rightarrow> 'p"
  point_eq :: "'p \<Rightarrow> 'p \<Rightarrow> bool"

record 'p wcurve = "'p curve" +
  curve_p :: nat
  curve_a :: nat
  curve_b :: nat
  point_getX :: "'p \<Rightarrow> nat"
  point_getY :: "'p \<Rightarrow> nat"
  point_isInfinity :: "'p \<Rightarrow> bool"
  curve_point :: "nat \<Rightarrow> nat \<Rightarrow> 'p"
  jacobi :: "nat \<Rightarrow> nat \<Rightarrow> int"
  redSqrt :: "nat \<Rightarrow> error + nat"

text \<open>
  A hash: \<open>hash_final items len\<close> is what \<open>final(len)\<close> returns after \<open>init()\<close> and one
  \<open>update\<close> per item (\<open>final()\<close> without a length is \<open>None\<close>); \<open>hash_digest\<close> is the
  static \<open>digest(data, len)\<close>. An \<open>update\<close> takes the bytes its argument holds when it is
  called: \<open>hashInt\<close> passes the same one-byte buffer \<open>SLAB\<close> with a new content each
  time.
\<close>

record hashfn =
  hash_size :: nat
  hash_final :: "buffer list \<Rightarrow> nat option \<Rightarrow> error + buffer"
  hash_digest :: "buffer \<Rightarrow> nat \<Rightarrow> error + buffer"

fun decode_le :: "buffer \<Rightarrow> nat" where
  "decode_le [] = 0"
| "decode_le (x # xs) = unat x + 256 * decode_le xs"

definition BN_decode :: "buffer \<Rightarrow> endianness \<Rightarrow> nat" where
  \<comment> \<open>Modelled from the spec: \<open>BN.decode\<close> of the big-number library, which decodes the
      bytes as a little- or big-endian integer\<close>
  "BN_decode b e = (case e of LE \<Rightarrow> decode_le b | BE \<Rightarrow> decode_le (rev b))"

definition finvm :: "nat \<Rightarrow> nat \<Rightarrow> nat" where
  \<comment> \<open>Modelled from the spec: \<open>b.finvm(n)\<close> of the big-number library, the inverse of \<open>b\<close>
      modulo \<open>n\<close> by Fermat, \<open>b\<close> raised to \<open>n - 2\<close>\<close>
  "finvm b n = b ^ (n - 2) mod n"

definition js_slice_from :: "buffer \<Rightarrow> int \<Rightarrow> buffer" where
  \<comment> \<open>\<open>buf.slice(start)\<close>\<close>
  "js_slice_from b start = js_slice b start (int (length b))"

section \<open>The EdDSA engine (lib/js/eddsa.js)\<close>

definition ctx_length_ok :: "buffer option \<Rightarrow> bool" where
  \<comment> \<open>\<open>assert(!ctx || ctx.length <= 255)\<close>: a buffer is an object, so \<open>!ctx\<close> is false for it\<close>
  "ctx_length_ok cx = (case cx of None \<Rightarrow> True | Some c \<Rightarrow> length c \<le> 255)"

definition EDDSA_hashKey :: "('p, 'm) curve_scheme \<Rightarrow> hashfn \<Rightarrow> buffer \<Rightarrow> error + buffer" where
  "EDDSA_hashKey C H secret =
     (if length secret \<noteq> curve_size C then Inl AssertionError
      else hash_digest H secret (curve_size C * 2))"

definition EDDSA_hashInt ::
  "('p, 'm) curve_scheme \<Rightarrow> hashfn \<Rightarrow> bool option \<Rightarrow> buffer option \<Rightarrow> buffer list \<Rightarrow> error + nat" where
  "EDDSA_hashInt C H ph cx items =
     (if \<not> ctx_length_ok cx then Inl AssertionError
      else if curve_context C \<or> ph \<noteq> None then
        (let flag = [if ph = Some True then 1 else 0 :: byte];
             context_items = (case cx of Some c \<Rightarrow> [[of_nat (length c)], c] | None \<Rightarrow> [[0]])
         in case hash_final H ([curve_prefix C, flag] @ context_items @ items)
                   (Some (curve_size C * 2)) of
              Inl e \<Rightarrow> Inl e
            | Inr hash \<Rightarrow> Inr (BN_decode hash (curve_endian C) mod curve_n C))
      else if cx \<noteq> None then Inl AssertionError
      else (case hash_final H items (Some (curve_size C * 2)) of
              Inl e \<Rightarrow> Inl e
            | Inr hash \<Rightarrow> Inr (BN_decode hash (curve_endian C) mod curve_n C)))"

definition EDDSA_privateKeyConvert :: "('p, 'm) curve_scheme \<Rightarrow> hashfn \<Rightarrow> buffer \<Rightarrow> error + buffer" where
  "EDDSA_privateKeyConvert C H secret =
     (case EDDSA_hashKey C H secret of
        Inl e \<Rightarrow> Inl e
      | Inr hash \<Rightarrow> (case splitHash C hash of Inl e \<Rightarrow> Inl e | Inr (k, nonce) \<Rightarrow> Inr k))"

definition EDDSA_scalarVerify :: "('p, 'm) curve_scheme \<Rightarrow> buffer \<Rightarrow> bool" where
  "EDDSA_scalarVerify C scalar = isClamped C scalar"

text \<open>
  \<open>scalarClamp\<close> works on buffers by reference, so it runs on a store: the buffers in
  existence, each at its address (its index). \<open>Buffer.from(scalar)\<close> allocates a copy at
  a new address; \<open>curve.clamp\<close> overwrites the buffer it is given and returns it.
\<close>

type_synonym store = "buffer list"

definition EDDSA_scalarClamp :: "('p, 'm) curve_scheme \<Rightarrow> store \<Rightarrow> nat \<Rightarrow> error + nat \<times> store" where
  "EDDSA_scalarClamp C h scalar =
     (if \<not> scalar < length h then Inl AssertionError
      else if length (h ! scalar) \<noteq> curve_scalarLength C then Inl AssertionError
      else if \<not> EDDSA_scalarVerify C (h ! scalar) then
        (let fresh = length h;
             h1 = h @ [h ! scalar];
             h2 = h1[fresh := clamp C (h1 ! fresh)]
         in Inr (fresh, h2))
      else Inr (scalar, h))"

definition EDDSA_publicKeyFromScalar :: "('p, 'm) curve_scheme \<Rightarrow> buffer \<Rightarrow> error + buffer" where
  "EDDSA_publicKeyFromScalar C scalar =
     (case decodeScalar C scalar of
        Inl e \<Rightarrow> Inl e
      | Inr a \<Rightarrow> Inr (point_encode C (point_mulBlind C (curve_g C) (a mod curve_n C))))"

definition EDDSA_publicKeyCreate :: "('p, 'm) curve_scheme \<Rightarrow> hashfn \<Rightarrow> buffer \<Rightarrow> error + buffer" where
  "EDDSA_publicKeyCreate C H secret =
     (case EDDSA_privateKeyConvert C H secret of
        Inl e \<Rightarrow> Inl e
      | Inr k \<Rightarrow> EDDSA_publicKeyFromScalar C k)"

definition blinded_S :: "nat \<Rightarrow> nat \<Rightarrow> nat \<Rightarrow> nat \<Rightarrow> nat \<Rightarrow> nat" where
  \<comment> \<open>\<open>bi = b.finvm(N)\<close>; \<open>ha = h.imul(b).iumod(N).imul(a).iumod(N)\<close>;
      \<open>S = r.imul(b).iumod(N).iadd(ha).iumod(N).imul(bi).iumod(N)\<close>\<close>
  "blinded_S N r h a b =
     (let bi = finvm b N;
          ha = (h * b mod N) * a mod N
      in ((r * b mod N + ha) mod N) * bi mod N)"

definition unblinded_S :: "nat \<Rightarrow> nat \<Rightarrow> nat \<Rightarrow> nat \<Rightarrow> nat" where
  \<comment> \<open>the specification's \<open>S = (r + h * a) mod n\<close>\<close>
  "unblinded_S N r h a = (r + h * a) mod N"

definition EDDSA_signWithScalar ::
  "('p, 'm) curve_scheme \<Rightarrow> hashfn \<Rightarrow> buffer \<Rightarrow> buffer \<Rightarrow> buffer \<Rightarrow> bool option \<Rightarrow> buffer option \<Rightarrow> nat
     \<Rightarrow> error + buffer" where
  \<comment> \<open>the last argument is the blinding factor that \<open>BN.random(rng, 1, N)\<close> draws\<close>
  "EDDSA_signWithScalar C H msg scalar nonce ph cx b =
     (if length nonce \<noteq> curve_size C then Inl AssertionError
      else
        (case decodeScalar C scalar of
           Inl e \<Rightarrow> Inl e
         | Inr a \<Rightarrow>
             (let A = point_encode C (point_mulBlind C (curve_g C) a) in
              case EDDSA_hashInt C H ph cx [nonce, msg] of
                Inl e \<Rightarrow> Inl e
              | Inr r \<Rightarrow>
                  (let R = point_encode C (point_mulBlind C (curve_g C) r) in
                   case EDDSA_hashInt C H ph cx [R, A, msg] of
                     Inl e \<Rightarrow> Inl e
                   | Inr h \<Rightarrow> Inr (R @ encodeInt C (blinded_S (curve_n C) r h a b))))))"

definition EDDSA_sign ::
  "('p, 'm) curve_scheme \<Rightarrow> hashfn \<Rightarrow> buffer \<Rightarrow> buffer \<Rightarrow> bool option \<Rightarrow> buffer option \<Rightarrow> nat
     \<Rightarrow> error + buffer" where
  "EDDSA_sign C H msg secret ph cx b =
     (case EDDSA_hashKey C H secret of
        Inl e \<Rightarrow> Inl e
      | Inr hash \<Rightarrow>
          (case splitHash C hash of
             Inl e \<Rightarrow> Inl e
           | Inr (k, nonce) \<Rightarrow> EDDSA_signWithScalar C H msg k nonce ph cx b))"

fun dbl_both :: "('p, 'm) curve_scheme \<Rightarrow> nat \<Rightarrow> 'p \<times> 'p \<Rightarrow> 'p \<times> 'p" where
  \<comment> \<open>\<open>for (i = 0; i < hc; i++) { lhs = lhs.dbl(); rhs = rhs.dbl(); }\<close>\<close>
  "dbl_both C 0 (lhs, rhs) = (lhs, rhs)"
| "dbl_both C (Suc i) (lhs, rhs) = dbl_both C i (point_dbl C lhs, point_dbl C rhs)"

definition EDDSA__verify ::
  "('p, 'm) curve_scheme \<Rightarrow> hashfn \<Rightarrow> buffer \<Rightarrow> buffer \<Rightarrow> buffer \<Rightarrow> bool option \<Rightarrow> buffer option
     \<Rightarrow> error + bool" where
  "EDDSA__verify C H msg sig ky ph cx =
     (let Rraw = js_slice sig 0 (int (curve_size C));
          Sraw = js_slice_from sig (int (curve_size C))
      in case decodePoint C Rraw of
           Inl e \<Rightarrow> Inl e
         | Inr R \<Rightarrow>
             (case decodeInt C Sraw of
                Inl e \<Rightarrow> Inl e
              | Inr S \<Rightarrow>
                  (case decodePoint C ky of
                     Inl e \<Rightarrow> Inl e
                   | Inr A \<Rightarrow>
                       if S \<ge> curve_n C then Inr False
                       else
                         (case EDDSA_hashInt C H ph cx [Rraw, ky, msg] of
                            Inl e \<Rightarrow> Inl e
                          | Inr h \<Rightarrow>
                              (case dbl_both C (curve_hc C)
                                      (point_mul C (curve_g C) S,
                                       point_add C R (point_mul C A h)) of
                                 (lhs, rhs) \<Rightarrow> Inr (point_eq C lhs rhs))))))"

definition args_ok :: "('p, 'm) curve_scheme \<Rightarrow> bool option \<Rightarrow> buffer option \<Rightarrow> bool" where
  \<comment> \<open>the assertions on \<open>ph\<close> and \<open>ctx\<close> that open \<open>verify\<close> and \<open>batchVerify\<close> (and
      \<open>hashInt\<close>)\<close>
  "args_ok C ph cx =
     (ctx_length_ok cx \<and> \<not> (\<not> curve_context C \<and> cx \<noteq> None \<and> ph = None))"

definition EDDSA_verify ::
  "('p, 'm) curve_scheme \<Rightarrow> hashfn \<Rightarrow> buffer \<Rightarrow> buffer \<Rightarrow> buffer \<Rightarrow> bool option \<Rightarrow> buffer option
     \<Rightarrow> error + bool" where
  \<comment> \<open>\<open>try { return this._verify(...) } catch (e) { return false }\<close>\<close>
  "EDDSA_verify C H msg sig ky ph cx =
     (if \<not> ctx_length_ok cx then Inl AssertionError
      else if \<not> curve_context C \<and> cx \<noteq> None \<and> ph = None then Inl AssertionError
      else if length sig \<noteq> curve_size C * 2 then Inr False
      else if length ky \<noteq> curve_size C then Inr False
      else (case EDDSA__verify C H msg sig ky ph cx of
              Inl e \<Rightarrow> Inr False
            | Inr ok \<Rightarrow> Inr ok))"

text \<open>
  Batch verification. The weights \<open>BN.random(rng, 1, N)\<close> are the draws \<open>rnd 0\<close>,
  \<open>rnd 1\<close>, ... of the argument \<open>rnd\<close>. The loop ends by throwing (\<open>Inl\<close>), by
  \<open>return false\<close> (\<open>Inr None\<close>) or with its accumulators, which are \<open>None\<close> while
  \<open>lhs\<close> and \<open>rhs\<close> are still \<open>null\<close>.
\<close>

fun EDDSA_batch_loop ::
  "('p, 'm) curve_scheme \<Rightarrow> hashfn \<Rightarrow> bool option \<Rightarrow> buffer option \<Rightarrow> (nat \<Rightarrow> nat) \<Rightarrow> nat
     \<Rightarrow> (nat \<times> 'p) option \<Rightarrow> (buffer \<times> buffer \<times> buffer) list
     \<Rightarrow> error + (nat \<times> 'p) option option" where
  "EDDSA_batch_loop C H ph cx rnd i acc [] = Inr (Some acc)"
| "EDDSA_batch_loop C H ph cx rnd i acc ((msg, sig, ky) # rest) =
     (let Rraw = js_slice sig 0 (int (curve_size C));
          Sraw = js_slice_from sig (int (curve_size C))
      in case decodePoint C Rraw of
           Inl e \<Rightarrow> Inl e
         | Inr R \<Rightarrow>
             (case decodeInt C Sraw of
                Inl e \<Rightarrow> Inl e
              | Inr S \<Rightarrow>
                  (case decodePoint C ky of
                     Inl e \<Rightarrow> Inl e
                   | Inr A \<Rightarrow>
                       if S \<ge> curve_n C then Inr None
                       else
                         (case EDDSA_hashInt C H ph cx [Rraw, ky, msg] of
                            Inl e \<Rightarrow> Inl e
                          | Inr e \<Rightarrow>
                              (case acc of
                                 None \<Rightarrow>
                                   EDDSA_batch_loop C H ph cx rnd i
                                     (Some (S, point_add C R (point_mul C A e))) rest
                               | Some (lhs, rhs) \<Rightarrow>
                                   (let a = rnd i;
                                        ae = a * e mod curve_n C
                                    in EDDSA_batch_loop C H ph cx rnd (Suc i)
                                         (Some ((lhs + a * S) mod curve_n C,
                                                point_add C rhs (point_mulAdd C R a A ae)))
                                         rest))))))"

definition EDDSA__batchVerify ::
  "('p, 'm) curve_scheme \<Rightarrow> hashfn \<Rightarrow> (nat \<Rightarrow> nat) \<Rightarrow> (buffer \<times> buffer \<times> buffer) list
     \<Rightarrow> bool option \<Rightarrow> buffer option \<Rightarrow> error + bool" where
  "EDDSA__batchVerify C H rnd batch ph cx =
     (case EDDSA_batch_loop C H ph cx rnd 0 None batch of
        Inl e \<Rightarrow> Inl e
      | Inr None \<Rightarrow> Inr False
      | Inr (Some None) \<Rightarrow> Inr True
      | Inr (Some (Some (lhs, rhs))) \<Rightarrow> Inr (point_eq C (point_mul C (curve_g C) lhs) rhs))"

fun EDDSA_batch_lengths :: "('p, 'm) curve_scheme \<Rightarrow> (buffer \<times> buffer \<times> buffer) list \<Rightarrow> bool" where
  \<comment> \<open>the first loop of \<open>batchVerify\<close>: false when it reaches \<open>return false\<close>\<close>
  "EDDSA_batch_lengths C [] = True"
| "EDDSA_batch_lengths C ((msg, sig, ky) # rest) =
     (if length sig \<noteq> curve_size C * 2 then False
      else if length ky \<noteq> curve_size C then False
      else EDDSA_batch_lengths C rest)"

definition EDDSA_batchVerify ::
  "('p, 'm) curve_scheme \<Rightarrow> hashfn \<Rightarrow> (nat \<Rightarrow> nat) \<Rightarrow> (buffer \<times> buffer \<times> buffer) list
     \<Rightarrow> bool option \<Rightarrow> buffer option \<Rightarrow> error + bool" where
  "EDDSA_batchVerify C H rnd batch ph cx =
     (if \<not> ctx_length_ok cx then Inl AssertionError
      else if \<not> curve_context C \<and> cx \<noteq> None \<and> ph = None then Inl AssertionError
      else if \<not> EDDSA_batch_lengths C batch then Inr False
      else (case EDDSA__batchVerify C H rnd batch ph cx of
              Inl e \<Rightarrow> Inr False
            | Inr ok \<Rightarrow> Inr ok))"

section \<open>The Schnorr engine (lib/js/schnorr.js)\<close>

definition Schnorr_hashInt :: "('p, 'm) curve_scheme \<Rightarrow> hashfn \<Rightarrow> buffer list \<Rightarrow> error + nat" where
  "Schnorr_hashInt W H items =
     (case hash_final H items None of
        Inl e \<Rightarrow> Inl e
      | Inr hash \<Rightarrow> Inr (BN_decode hash (curve_endian W) mod curve_n W))"

definition Schnorr_sign :: "'p wcurve \<Rightarrow> hashfn \<Rightarrow> buffer \<Rightarrow> buffer \<Rightarrow> nat \<Rightarrow> error + buffer" where
  \<comment> \<open>the last argument is the blinding factor that \<open>BN.random(rng, 1, N)\<close> draws\<close>
  "Schnorr_sign W H msg ky b =
     (if length msg \<noteq> hash_size H then Inl AssertionError
      else if length ky \<noteq> curve_size W then Inl AssertionError
      else
        (case Schnorr_hashInt W H [ky, msg] of
           Inl e \<Rightarrow> Inl e
         | Inr k' \<Rightarrow>
             if k' = 0 then Inl (Error ''Signing failed (k' = 0).'')
             else
               (let R = point_mulBlind W (curve_g W) k';
                    k = (if jacobi W (point_getY W R) (curve_p W) \<noteq> 1 then curve_n W - k' else k')
                in case decodeScalar W ky of
                     Inl e \<Rightarrow> Inl e
                   | Inr a \<Rightarrow>
                       if a = 0 \<or> a \<ge> curve_n W then Inl (Error ''Invalid private key.'')
                       else
                         (let Araw = point_encode W (point_mulBlind W (curve_g W) a);
                              Rraw = encodeInt W (point_getX W R)
                          in case Schnorr_hashInt W H [Rraw, Araw, msg] of
                               Inl e \<Rightarrow> Inl e
                             | Inr e \<Rightarrow>
                                 Inr (Rraw @ encodeScalar W (blinded_S (curve_n W) k e a b))))))"

definition Schnorr__verify :: "'p wcurve \<Rightarrow> hashfn \<Rightarrow> buffer \<Rightarrow> buffer \<Rightarrow> buffer \<Rightarrow> error + bool" where
  "Schnorr__verify W H msg sig ky =
     (if length msg \<noteq> hash_size H then Inr False
      else if length sig \<noteq> curve_size W * 2 then Inr False
      else
        (case decodePoint W ky of
           Inl e \<Rightarrow> Inl e
         | Inr A \<Rightarrow>
             (let Rraw = js_slice sig 0 (int (curve_size W));
                  Sraw = js_slice_from sig (int (curve_size W))
              in case decodeInt W Rraw of
                   Inl e \<Rightarrow> Inl e
                 | Inr Rx \<Rightarrow>
                     (case decodeScalar W Sraw of
                        Inl e \<Rightarrow> Inl e
                      | Inr S \<Rightarrow>
                          if Rx \<ge> curve_p W \<or> S \<ge> curve_n W then Inr False
                          else
                            (case Schnorr_hashInt W H [Rraw, point_encode W A, msg] of
                               Inl e \<Rightarrow> Inl e
                             | Inr e \<Rightarrow>
                                 (let R = point_add W (point_mul W (curve_g W) S)
                                            (point_mul W A (curve_n W - e))
                                  in if point_isInfinity W R then Inr False
                                     else if jacobi W (point_getY W R) (curve_p W) \<noteq> 1 then Inr False
                                     else if point_getX W R \<noteq> Rx then Inr False
                                     else Inr True))))))"


fun Schnorr_batch_loop ::
  "'p wcurve \<Rightarrow> hashfn \<Rightarrow> (nat \<Rightarrow> nat) \<Rightarrow> nat \<Rightarrow> (nat \<times> 'p) option
     \<Rightarrow> (buffer \<times> buffer \<times> buffer) list \<Rightarrow> error + (nat \<times> 'p) option option" where
  "Schnorr_batch_loop W H rnd i acc [] = Inr (Some acc)"
| "Schnorr_batch_loop W H rnd i acc ((msg, sig, ky) # rest) =
     (case decodePoint W ky of
        Inl e \<Rightarrow> Inl e
      | Inr A \<Rightarrow>
          (let Rraw = js_slice sig 0 (int (curve_size W));
               Sraw = js_slice_from sig (int (curve_size W))
           in case decodeInt W Rraw of
                Inl e \<Rightarrow> Inl e
              | Inr Rx \<Rightarrow>
                  (case decodeScalar W Sraw of
                     Inl e \<Rightarrow> Inl e
                   | Inr S \<Rightarrow>
                       if Rx \<ge> curve_p W \<or> S \<ge> curve_n W then Inr None
                       else
                         (case Schnorr_hashInt W H [Rraw, point_encode W A, msg] of
                            Inl e \<Rightarrow> Inl e
                          | Inr e \<Rightarrow>
                              (let p = curve_p W;
                                   r = Rx;
                                   ra = r * curve_a W mod p;
                                   c = (((r * r mod p) * r mod p + ra) mod p + curve_b W) mod p
                               in case redSqrt W c of
                                    Inl e' \<Rightarrow> Inl e'
                                  | Inr y \<Rightarrow>
                                      if c \<noteq> y * y mod p then Inr None
                                      else
                                        (let R = curve_point W r y in
                                         case acc of
                                           None \<Rightarrow>
                                             Schnorr_batch_loop W H rnd i
                                               (Some (S, point_add W R (point_mul W A e))) rest
                                         | Some (lhs, rhs) \<Rightarrow>
                                             (let a = rnd i;
                                                  ae = a * e mod curve_n W
                                              in Schnorr_batch_loop W H rnd (Suc i)
                                                   (Some ((lhs + a * S) mod curve_n W,
                                                          point_add W rhs (point_mulAdd W R a A ae)))
                                                   rest)))))))"

definition Schnorr__batchVerify ::
  "'p wcurve \<Rightarrow> hashfn \<Rightarrow> (nat \<Rightarrow> nat) \<Rightarrow> (buffer \<times> buffer \<times> buffer) list \<Rightarrow> error + bool" where
  "Schnorr__batchVerify W H rnd batch =
     (case Schnorr_batch_loop W H rnd 0 None batch of
        Inl e \<Rightarrow> Inl e
      | Inr None \<Rightarrow> Inr False
      | Inr (Some None) \<Rightarrow> Inr True
      | Inr (Some (Some (lhs, rhs))) \<Rightarrow> Inr (point_eq W (point_mul W (curve_g W) lhs) rhs))"

fun Schnorr_batch_lengths :: "'p wcurve \<Rightarrow> hashfn \<Rightarrow> (buffer \<times> buffer \<times> buffer) list \<Rightarrow> bool" where
  "Schnorr_batch_lengths W H [] = True"
| "Schnorr_batch_lengths W H ((msg, sig, ky) # rest) =
     (if length msg \<noteq> hash_size H then False
      else if length sig \<noteq> curve_size W * 2 then False
      else Schnorr_batch_lengths W H rest)"

definition Schnorr_batchVerify ::
  "'p wcurve \<Rightarrow> hashfn \<Rightarrow> (nat \<Rightarrow> nat) \<Rightarrow> (buffer \<times> buffer \<times> buffer) list \<Rightarrow> error + bool" where
  "Schnorr_batchVerify W H rnd batch =
     (if \<not> Schnorr_batch_lengths W H batch then Inr False
      else (case Schnorr__batchVerify W H rnd batch of
              Inl e \<Rightarrow> Inr False
            | Inr ok \<Rightarrow> Inr ok))"

section \<open>A small instance of the facades\<close>

text \<open>
  For the examples: the additive group of the integers modulo 13 as the curve, with
  generator 1 and points, scalars and integers encoded in one byte; a hash that
  stretches the byte sum of its input; the Weierstrass fields on top for the Schnorr
  engine (every residue counts as a square with \<open>jacobi\<close> 1).
\<close>

definition toy_decode :: "buffer \<Rightarrow> error + nat" where
  "toy_decode b = (case b of [x] \<Rightarrow> Inr (unat x) | _ \<Rightarrow> Inl (Error ''Invalid length.''))"

definition toy_decodePoint :: "buffer \<Rightarrow> error + nat" where
  "toy_decodePoint b =
     (case b of
        [x] \<Rightarrow> if unat x < 13 then Inr (unat x) else Inl (Error ''Invalid point.'')
      | _ \<Rightarrow> Inl (Error ''Invalid point.''))"

definition toy_clamp :: "buffer \<Rightarrow> buffer" where
  "toy_clamp b = map (\<lambda>x. (x AND 0x78) OR 0x40) b"

definition toy_splitHash :: "buffer \<Rightarrow> error + buffer \<times> buffer" where
  "toy_splitHash h =
     (case h of
        [x, y] \<Rightarrow> Inr (toy_clamp [x], [y])
      | _ \<Rightarrow> Inl (Error ''Invalid length.''))"

definition toy_curve :: "nat curve" where
  "toy_curve =
     \<lparr>curve_size = 1, curve_scalarLength = 1, curve_n = 13, curve_hc = 3,
      curve_context = False, curve_prefix = [], curve_endian = LE, curve_g = 1,
      decodePoint = toy_decodePoint, decodeScalar = toy_decode, decodeInt = toy_decode,
      encodeInt = (\<lambda>s. [of_nat s]), encodeScalar = (\<lambda>s. [of_nat s]),
      splitHash = toy_splitHash,
      isClamped = (\<lambda>b. toy_clamp b = b), clamp = toy_clamp,
      point_encode = (\<lambda>P. [of_nat P]),
      point_mul = (\<lambda>P k. P * k mod 13),
      point_mulBlind = (\<lambda>P k. P * k mod 13),
      point_mulAdd = (\<lambda>P k Q l. (P * k + Q * l) mod 13),
      point_add = (\<lambda>P Q. (P + Q) mod 13),
      point_dbl = (\<lambda>P. 2 * P mod 13),
      point_eq = (\<lambda>P Q. P = Q)\<rparr>"

definition toy_wcurve :: "nat wcurve" where
  "toy_wcurve =
     curve.extend toy_curve
       (wcurve.fields 13 0 7 (\<lambda>P. P) (\<lambda>P. P) (\<lambda>P. P = 0) (\<lambda>x y. x) (\<lambda>x p. 1) (\<lambda>c. Inr c))"

definition toy_stretch :: "buffer \<Rightarrow> nat \<Rightarrow> buffer" where
  "toy_stretch d len = map (\<lambda>i. of_nat (Suc i) * (sum_list d + 1)) [0..<len]"

definition toy_hash :: hashfn where
  "toy_hash =
     \<lparr>hash_size = 1,
      hash_final = (\<lambda>items len. Inr (toy_stretch (concat items) (case len of None \<Rightarrow> 1 | Some l \<Rightarrow> l))),
      hash_digest = (\<lambda>d len. Inr (toy_stretch d len))\<rparr>"

definition prime_nat :: "nat \<Rightarrow> bool" where
  "prime_nat p = (1 < p \<and> (\<forall>m \<in> {2..<p}. \<not> m dvd p))"

section \<open>The specification's signing, without blinding\<close>

text \<open>
  The specification defines the signature scalar as \<open>S = (r + h * a) mod n\<close> (EdDSA)
  and \<open>S = (k + e * a) mod n\<close> (Schnorr). These two definitions follow its steps with
  that scalar; the engine's functions, which compute it blinded, are compared with them.
\<close>

definition EDDSA_signWithScalar_unblinded ::
  "('p, 'm) curve_scheme \<Rightarrow> hashfn \<Rightarrow> buffer \<Rightarrow> buffer \<Rightarrow> buffer \<Rightarrow> bool option \<Rightarrow> buffer option
     \<Rightarrow> error + buffer" where
  "EDDSA_signWithScalar_unblinded C H msg scalar nonce ph cx =
     (if length nonce \<noteq> curve_size C then Inl AssertionError
      else
        (case decodeScalar C scalar of
           Inl e \<Rightarrow> Inl e
         | Inr a \<Rightarrow>
             (let A = point_encode C (point_mulBlind C (curve_g C) a) in
              case EDDSA_hashInt C H ph cx [nonce, msg] of
                Inl e \<Rightarrow> Inl e
              | Inr r \<Rightarrow>
                  (let R = point_encode C (point_mulBlind C (curve_g C) r) in
                   case EDDSA_hashInt C H ph cx [R, A, msg] of
                     Inl e \<Rightarrow> Inl e
                   | Inr h \<Rightarrow> Inr (R @ encodeInt C (unblinded_S (curve_n C) r h a))))))"

definition Schnorr_sign_unblinded :: "'p wcurve \<Rightarrow> hashfn \<Rightarrow> buffer \<Rightarrow> buffer \<Rightarrow> error + buffer" where
  "Schnorr_sign_unblinded W H msg ky =
     (if length msg \<noteq> hash_size H then Inl AssertionError
      else if length ky \<noteq> curve_size W then Inl AssertionError
      else
        (case Schnorr_hashInt W H [ky, msg] of
           Inl e \<Rightarrow> Inl e
         | Inr k' \<Rightarrow>
             if k' = 0 then Inl (Error ''Signing failed (k' = 0).'')
             else
               (let R = point_mulBlind W (curve_g W) k';
                    k = (if jacobi W (point_getY W R) (curve_p W) \<noteq> 1 then curve_n W - k' else k')
                in case decodeScalar W ky of
                     Inl e \<Rightarrow> Inl e
                   | Inr a \<Rightarrow>
                       if a = 0 \<or> a \<ge> curve_n W then Inl (Error ''Invalid private key.'')
                       else
                         (let Araw = point_encode W (point_mulBlind W (curve_g W) a);
                              Rraw = encodeInt W (point_getX W R)
                          in case Schnorr_hashInt W H [Rraw, Araw, msg] of
                               Inl e \<Rightarrow> Inl e
                             | Inr e \<Rightarrow>
                                 Inr (Rraw @ encodeScalar W (unblinded_S (curve_n W) k e a))))))"

section \<open>What the engine needs of the facades\<close>

text \<open>
  The contract of the curve and the hash under which signing and verification agree:
  the group order is prime; the base point has that order and its multiples add and
  multiply as scalars do; blinded multiplication gives the same point; a point equals
  itself; multiples of the base point and integers below the order survive encoding
  and decoding at the curve's size; a seed of the right length expands to a scalar and
  a nonce of the curve's size; hashing to \<open>2 * size\<close> bytes does not throw.
\<close>

definition facade_ok :: "('p, 'm) curve_scheme \<Rightarrow> hashfn \<Rightarrow> bool" where
  "facade_ok C H =
     (prime_nat (curve_n C) \<and>
      (\<forall>k. point_mulBlind C (curve_g C) k = point_mul C (curve_g C) k) \<and>
      (\<forall>k. point_mul C (curve_g C) (k mod curve_n C) = point_mul C (curve_g C) k) \<and>
      (\<forall>k l. point_mul C (curve_g C) (k + l)
               = point_add C (point_mul C (curve_g C) k) (point_mul C (curve_g C) l)) \<and>
      (\<forall>k l. point_mul C (point_mul C (curve_g C) k) l = point_mul C (curve_g C) (k * l)) \<and>
      (\<forall>P. point_eq C P P) \<and>
      (\<forall>k. decodePoint C (point_encode C (point_mul C (curve_g C) k))
             = Inr (point_mul C (curve_g C) k)) \<and>
      (\<forall>k. length (point_encode C (point_mul C (curve_g C) k)) = curve_size C) \<and>
      (\<forall>s. s < curve_n C \<longrightarrow>
             decodeInt C (encodeInt C s) = Inr s \<and> length (encodeInt C s) = curve_size C) \<and>
      (\<forall>secret. length secret = curve_size C \<longrightarrow>
             (\<exists>hash k nonce a.
                hash_digest H secret (curve_size C * 2) = Inr hash \<and>
                splitHash C hash = Inr (k, nonce) \<and> length nonce = curve_size C \<and>
                decodeScalar C k = Inr a)) \<and>
      (\<forall>items. \<exists>d. hash_final H items (Some (curve_size C * 2)) = Inr d))"


section \<open>Properties of the cipher modes\<close>

subsection \<open>Lengths of buffers\<close>

lemma length_write_at [simp]: "length (write_at out pos xs) = length out"
  by (induction xs arbitrary: out pos) auto

lemma length_xor_blocks [simp]: "length (xor_blocks a i b j n) = n"
  by (simp add: xor_blocks_def)

lemma length_allocUnsafe [simp]: "length (allocUnsafe junk n) = n"
  by (simp add: allocUnsafe_def)

lemma fill_all: "fill b v 0 (length b) = replicate (length b) v"
  by (rule nth_equalityI) (simp_all add: fill_def)

subsection \<open>The hooks leave \<open>this.block\<close> alone\<close>

lemma block_dispatch_update: "block (fst (dispatch_update s inp ipos out opos)) = block s"
  by (simp add: dispatch_update_def BlockCipher_update_def BlockDecipher_update_def
      CTR_update_def CFB_update_def OFB_update_def Let_def split: cls.splits)

lemma block_BlockCipher_final: "block (snd (BlockCipher_final s)) = block s"
proof -
  define blk where
    "blk = fill (block s) (of_int (int (length (block s)) - bpos s)) (nat (bpos s)) (length (block s))"
  obtain s1 out where d: "dispatch_update s (Buf blk) 0 blk 0 = (s1, out)"
    by (cases "dispatch_update s (Buf blk) 0 blk 0")
  then have "block s1 = block s"
    using block_dispatch_update [of s "Buf blk" 0 blk 0] by simp
  with d show ?thesis
    by (simp add: BlockCipher_final_def Let_def blk_def)
qed

lemma block_BlockDecipher_final: "block (snd (BlockDecipher_final s)) = block s"
  by (simp add: BlockDecipher_final_def Let_def split: sum.splits)

lemma block_dispatch_final: "block (snd (dispatch_final s)) = block s"
  by (simp add: dispatch_final_def block_BlockCipher_final block_BlockDecipher_final
      CTR_final_def CFB_final_def OFB_final_def Let_def split: cls.splits)

lemma final_cleans:
  assumes "bpos s \<noteq> - 1"
  shows "destroyed (ctx (snd (Cipher_final s))) \<and>
         block (snd (Cipher_final s)) = replicate (length (block s)) 0 \<and>
         bpos (snd (Cipher_final s)) = - 1"
proof -
  obtain ret s1 where d: "dispatch_final s = (ret, s1)"
    by (cases "dispatch_final s")
  then have "block s1 = block s"
    using block_dispatch_final [of s] by simp
  with assms d show ?thesis
    by (simp add: Cipher_final_def ctx_destroy_def fill_all)
qed

subsection \<open>The life cycle of a mode object\<close>

text \<open>
  C7, as stated, fails: \<open>final()\<close> on an object that was never initialized is rejected
  by the guard before the \<open>try/finally\<close>, so nothing is cleaned up. The context has not
  been destroyed and the block still holds what \<open>Buffer.allocUnsafe\<close> found in memory.
\<close>

theorem final_uninitialized_counterexample:
  "fst (Cipher_final (new (\<lambda>i. 0xAA) CBCCipher sample_ctx)) = Inl (Error ''Cipher not initialized.'') \<and>
   \<not> destroyed (ctx (snd (Cipher_final (new (\<lambda>i. 0xAA) CBCCipher sample_ctx)))) \<and>
   block (snd (Cipher_final (new (\<lambda>i. 0xAA) CBCCipher sample_ctx))) = [0xAA, 0xAA, 0xAA, 0xAA] \<and>
   block (snd (Cipher_final (new (\<lambda>i. 0xAA) CBCCipher sample_ctx))) \<noteq> replicate 4 0"
  by code_simp

text \<open>
  C7, amended: whenever \<open>bpos = -1\<close> (never initialized, or finalized), \<open>update\<close> and
  \<open>final\<close> fail with an error and leave the object as it was; and after every call to
  \<open>final()\<close> on an initialized object (\<open>bpos \<noteq> -1\<close>), whatever \<open>_final\<close> returned or
  threw (a failed padding check included), the context has been destroyed, the block
  buffer is all zero and \<open>bpos = -1\<close>.
\<close>

theorem lifecycle_invariant:
  "(bpos s = - 1 \<longrightarrow>
      Cipher_update junk s input = (Inl (Error ''Cipher not initialized.''), s) \<and>
      Cipher_final s = (Inl (Error ''Cipher not initialized.''), s)) \<and>
   (bpos s \<noteq> - 1 \<longrightarrow>
      destroyed (ctx (snd (Cipher_final s))) \<and>
      block (snd (Cipher_final s)) = replicate (length (block s)) 0 \<and>
      bpos (snd (Cipher_final s)) = - 1)"
  using final_cleans [of s] by (simp add: Cipher_update_def Cipher_final_def)

text \<open>
  Witness for C7: a CBC decipher that was given one block which does not end in valid
  padding. \<open>final()\<close> throws the padding error and the object is cleaned all the same;
  a second \<open>final()\<close> or \<open>update\<close> is then rejected.
\<close>

theorem lifecycle_invariant_witness:
  "bpos (snd (Cipher_update (\<lambda>i. 0xAA)
           (snd (Cipher_init (\<lambda>i. 0xAA) (new (\<lambda>i. 0xAA) CBCDecipher sample_ctx) [7] (Some [9, 9, 9, 9])))
           [1, 2, 3, 4])) \<noteq> - 1 \<and>
   fst (Cipher_final (snd (Cipher_update (\<lambda>i. 0xAA)
           (snd (Cipher_init (\<lambda>i. 0xAA) (new (\<lambda>i. 0xAA) CBCDecipher sample_ctx) [7] (Some [9, 9, 9, 9])))
           [1, 2, 3, 4]))) = Inl (Error ''Bad decrypt (padding).'') \<and>
   destroyed (ctx (snd (Cipher_final (snd (Cipher_update (\<lambda>i. 0xAA)
           (snd (Cipher_init (\<lambda>i. 0xAA) (new (\<lambda>i. 0xAA) CBCDecipher sample_ctx) [7] (Some [9, 9, 9, 9])))
           [1, 2, 3, 4]))))) \<and>
   block (snd (Cipher_final (snd (Cipher_update (\<lambda>i. 0xAA)
           (snd (Cipher_init (\<lambda>i. 0xAA) (new (\<lambda>i. 0xAA) CBCDecipher sample_ctx) [7] (Some [9, 9, 9, 9])))
           [1, 2, 3, 4])))) = [0, 0, 0, 0] \<and>
   bpos (snd (Cipher_final (snd (Cipher_update (\<lambda>i. 0xAA)
           (snd (Cipher_init (\<lambda>i. 0xAA) (new (\<lambda>i. 0xAA) CBCDecipher sample_ctx) [7] (Some [9, 9, 9, 9])))
           [1, 2, 3, 4])))) = - 1 \<and>
   bpos (new (\<lambda>i. 0xAA) CBCDecipher sample_ctx) = - 1 \<and>
   fst (Cipher_update (\<lambda>i. 0xAA) (new (\<lambda>i. 0xAA) CBCDecipher sample_ctx) [1, 2, 3, 4])
     = Inl (Error ''Cipher not initialized.'') \<and>
   fst (Cipher_final (new (\<lambda>i. 0xAA) CBCDecipher sample_ctx)) = Inl (Error ''Cipher not initialized.'')"
proof -
  define s0 where
    "s0 = snd (Cipher_update (\<lambda>i. 0xAA)
           (snd (Cipher_init (\<lambda>i. 0xAA) (new (\<lambda>i. 0xAA) CBCDecipher sample_ctx) [7] (Some [9, 9, 9, 9])))
           [1, 2, 3, 4])"
  define n0 where "n0 = new (\<lambda>i. 0xAA) CBCDecipher sample_ctx"
  have live: "bpos s0 \<noteq> - 1" unfolding s0_def by code_simp
  have thrown: "fst (Cipher_final s0) = Inl (Error ''Bad decrypt (padding).'')"
    unfolding s0_def by code_simp
  have len: "length (block s0) = 4" unfolding s0_def by code_simp
  have fresh: "bpos n0 = - 1" unfolding n0_def by code_simp
  from lifecycle_invariant [of s0] live len
  have cleaned: "destroyed (ctx (snd (Cipher_final s0))) \<and>
      block (snd (Cipher_final s0)) = [0, 0, 0, 0] \<and> bpos (snd (Cipher_final s0)) = - 1"
    by (simp add: numeral_eq_Suc)
  from lifecycle_invariant [of n0 "\<lambda>i. 0xAA" "[1, 2, 3, 4]"] fresh
  have rejected: "fst (Cipher_update (\<lambda>i. 0xAA) n0 [1, 2, 3, 4]) = Inl (Error ''Cipher not initialized.'') \<and>
      fst (Cipher_final n0) = Inl (Error ''Cipher not initialized.'')"
    by simp
  from live thrown cleaned fresh rejected show ?thesis
    unfolding s0_def n0_def by blast
qed

subsection \<open>The factory\<close>

text \<open>
  C9, as stated, fails: \<open>get\<close> compares the name with the lower-case and the upper-case
  spelling only. The name \<open>Ecb\<close> equals \<open>ecb\<close> under case-insensitive comparison, and
  \<open>get\<close> rejects it.
\<close>

theorem get_mixed_case_counterexample:
  "map to_lower ''Ecb'' = ''ecb'' \<and>
   mode_class (map to_lower ''Ecb'') True = Some ECBCipher \<and>
   get ''Ecb'' True = Inl (Error ''Unknown mode: Ecb.'')"
  by (simp add: to_lower_def mode_class_def get_def)

text \<open>
  C9, amended: \<open>get(name, encrypt)\<close> returns the cipher class (\<open>encrypt\<close> true) or the
  decipher class (\<open>encrypt\<close> false) of the mode exactly when \<open>name\<close> is one of \<open>ecb\<close>,
  \<open>cbc\<close>, \<open>ctr\<close>, \<open>cfb\<close>, \<open>ofb\<close> written all in lower case or all in upper case; for
  every other string, mixed-case spellings included, it fails with the error
  \<open>Unknown mode\<close>.
\<close>

theorem get_lower_or_upper:
  "get name enc_flag =
     (if name \<in> set mode_names \<union> set (map (map to_upper) mode_names)
      then (case mode_class (map to_lower name) enc_flag of
              Some k \<Rightarrow> Inr k
            | None \<Rightarrow> Inl (Error (''Unknown mode: '' @ name @ ''.'')))
      else Inl (Error (''Unknown mode: '' @ name @ ''.'')))"
proof -
  have names: "set mode_names \<union> set (map (map to_upper) mode_names) =
      {''ecb'', ''ECB'', ''cbc'', ''CBC'', ''ctr'', ''CTR'', ''cfb'', ''CFB'', ''ofb'', ''OFB''}"
    by (auto simp: mode_names_def to_upper_def)
  show ?thesis
  proof (cases "name \<in> {''ecb'', ''ECB'', ''cbc'', ''CBC'', ''ctr'', ''CTR'', ''cfb'', ''CFB'', ''ofb'', ''OFB''}")
    case False
    then show ?thesis
      unfolding names by (simp add: get_def)
  next
    case True
    then show ?thesis
      unfolding names by (auto simp: get_def mode_class_def to_lower_def)
  qed
qed

subsection \<open>Output length when the input is fed across several \<open>update\<close> calls\<close>

lemmas crypt_unfold =
  crypt_def new_def Cipher_init_def dispatch_init_def Block_init_def CTR_init_def
  is_block_decipher_def Cipher_update_def update_rest_def update_loop.simps dispatch_update_def
  BlockCipher_update_def CTR_update_def Cipher_final_def dispatch_final_def BlockCipher_final_def
  CTR_final_def copy_def Let_def ctx_init_def ctx_encrypt_def js_slice_def fill_def

text \<open>
  C6 (total output length \<open>ceil((|input| + 1) / bs) * bs\<close> for ECB and CBC encryption,
  \<open>|input|\<close> for CTR, CFB and OFB, for every sequence of input buffers) does not hold of
  the code. \<open>Cipher.update\<close> computes \<open>olen = ilen - (ilen % bs)\<close> from the whole input
  before the first \<open>want\<close> bytes go to fill the buffered block, and then adds \<open>bs\<close> for
  that block. With 8 bytes buffered and 16 more supplied (block size 16, any block
  cipher, any key and IV) it allocates 32 bytes and writes 16 of them: 24 bytes of
  input give 40 bytes in CTR mode, not 24, and 48 bytes in CBC mode, not 32.
\<close>

theorem update_output_length_split_input:
  "(case crypt junk CTRCipher (c\<lparr>blockSize := 16\<rparr>) ky (Some (replicate 16 v))
           [replicate 8 a, replicate 16 b] of
      Inl e \<Rightarrow> False
    | Inr outs \<Rightarrow> map length outs = [0, 32, 8] \<and> length (concat outs) = 40) \<and>
   (case crypt junk CBCCipher (c\<lparr>blockSize := 16\<rparr>) ky (Some (replicate 16 v))
           [replicate 8 a, replicate 16 b] of
      Inl e \<Rightarrow> False
    | Inr outs \<Rightarrow> map length outs = [0, 32, 16] \<and> length (concat outs) = 48)"
  by (simp add: crypt_unfold)

subsection \<open>Ciphertext fed across several \<open>update\<close> calls\<close>

lemma pad_loop_end: "pad_loop blk left k e = Inr e' \<Longrightarrow> e' + k = e"
  by (induction k arbitrary: e) (auto split: if_splits)

lemma BlockDecipher_final_length:
  assumes "BlockDecipher_final s = (Inr out, s')" "length (lastb s) = length (block s)"
  shows "length out < length (block s)"
proof -
  define blk where "blk = lastb s"
  define left where "left = rd blk (length blk - 1)"
  from assms(1) obtain e where e: "pad_loop blk left (unat left) (length blk) = Inr e"
    and out: "out = js_slice blk (int (length blk) - int (length (block s))) (int e)"
    and l: "left \<noteq> 0"
    by (auto simp: BlockDecipher_final_def Let_def blk_def left_def split: if_splits sum.splits)
  from l have "0 < unat left" by (simp add: unat_gt_0)
  with pad_loop_end [OF e] have "e < length blk" by simp
  with out assms(2) show ?thesis
    by (simp add: js_slice_def blk_def)
qed

lemma ECB_split_blocks_lost:
  "(case crypt junk ECBDecipher (c\<lparr>blockSize := 16\<rparr>) ky None [replicate 16 a, replicate 16 b] of
      Inl e \<Rightarrow> True
    | Inr outs \<Rightarrow> length (concat outs) < 16)"
proof -
  define s0 where "s0 = snd (update_all junk (snd (Cipher_init junk (new junk ECBDecipher (c\<lparr>blockSize := 16\<rparr>)) ky None)) [replicate 16 a, replicate 16 b])"
  have u: "update_all junk (snd (Cipher_init junk (new junk ECBDecipher (c\<lparr>blockSize := 16\<rparr>)) ky None)) [replicate 16 a, replicate 16 b]
     = (Inr [[], []], s0)"
    unfolding s0_def
    by (simp add: new_def Cipher_init_def dispatch_init_def Block_init_def
      is_block_decipher_def Cipher_update_def update_rest_def update_loop.simps dispatch_update_def
      BlockDecipher_update_def copy_def Let_def ctx_init_def ctx_decrypt_def js_slice_def)
  have i: "fst (Cipher_init junk (new junk ECBDecipher (c\<lparr>blockSize := 16\<rparr>)) ky None) = Inr ()"
    by (simp add: new_def Cipher_init_def dispatch_init_def Block_init_def is_block_decipher_def)
  have l: "length (lastb s0) = 16" "length (block s0) = 16" "cls_of s0 = ECBDecipher" "bpos s0 = 0"
    unfolding s0_def
    by (simp_all add: new_def Cipher_init_def dispatch_init_def Block_init_def
      is_block_decipher_def Cipher_update_def update_rest_def update_loop.simps dispatch_update_def
      BlockDecipher_update_def copy_def Let_def ctx_init_def ctx_decrypt_def js_slice_def)
  show ?thesis
  proof (cases "BlockDecipher_final s0")
    case (Pair r s1)
    show ?thesis
    proof (cases r)
      case (Inl e)
      with Pair u i l show ?thesis
        by (cases "Cipher_init junk (new junk ECBDecipher (c\<lparr>blockSize := 16\<rparr>)) ky None")
          (simp add: crypt_def Cipher_final_def dispatch_final_def)
    next
      case (Inr out)
      with Pair have "length out < 16"
        using BlockDecipher_final_length [of s0 out s1] l by simp
      with Inr Pair u i l show ?thesis
        by (cases "Cipher_init junk (new junk ECBDecipher (c\<lparr>blockSize := 16\<rparr>)) ky None")
          (simp add: crypt_def Cipher_final_def dispatch_final_def)
    qed
  qed
qed


lemma ECB_whole_blocks_kept:
  "(case crypt junk ECBDecipher (c\<lparr>blockSize := 16\<rparr>) ky None [replicate 16 a @ replicate 16 b] of
      Inl e \<Rightarrow> True
    | Inr outs \<Rightarrow> 16 \<le> length (concat outs))"
proof -
  define s0 where "s0 = Cipher_init junk (new junk ECBDecipher (c\<lparr>blockSize := 16\<rparr>)) ky None"
  have i: "fst s0 = Inr ()"
    by (simp add: s0_def new_def Cipher_init_def dispatch_init_def Block_init_def is_block_decipher_def)
  obtain out s1 where u: "update_all junk (snd s0) [replicate 16 a @ replicate 16 b] = (Inr [out], s1)"
    and l: "length out = 16"
    unfolding s0_def
    by (simp add: new_def Cipher_init_def dispatch_init_def Block_init_def
      is_block_decipher_def Cipher_update_def update_rest_def update_loop.simps dispatch_update_def
      BlockDecipher_update_def copy_def Let_def ctx_init_def ctx_decrypt_def js_slice_def)
  show ?thesis
    using i u l unfolding crypt_def s0_def [symmetric]
    by (cases s0; cases "Cipher_final s1") (auto split: sum.splits)
qed

text \<open>
  C2 (decrypting what was encrypted gives the plaintext back, also when the ciphertext
  is fed across several \<open>update\<close> calls) does not hold of the code once the ciphertext is
  split. For every block cipher with 16-byte blocks, every key and every two
  ciphertext blocks, an ECB decipher fed one block per \<open>update\<close> emits fewer than 16
  bytes in all (or throws), where fed both blocks in one \<open>update\<close> it emits at least 16
  (or throws): each \<open>update\<close> overwrites \<open>this.last\<close> without emitting the block held
  back before, so no plaintext of 16 to 31 bytes comes back. With the sample cipher
  (4-byte blocks), key \<open>[7]\<close>:
  \<^item> ECB: the plaintext \<open>[1, 2, 3, 4]\<close> encrypts to two blocks and decrypts from one
    \<open>update\<close>; fed one block per \<open>update\<close>, nothing comes back;
  \<^item> CTR: the ciphertext of \<open>[1, 2, 3, 4, 5, 6]\<close> fed as 2 + 4 bytes comes back with four
    bytes of unwritten memory in the middle (the output length of C6);
  \<^item> CBC: the ciphertext of \<open>[1, 2, 3, 4, 5, 6, 7]\<close> fed as 2 + 3 + 3 bytes fails the
    padding check: \<open>this.prev\<close> aliases \<open>this.block\<close>, which the next partial input
    overwrites before it is used.
\<close>

theorem roundtrip_split_ciphertext:
  "(case crypt junk ECBDecipher (c\<lparr>blockSize := 16\<rparr>) ky None [replicate 16 a, replicate 16 b] of
      Inl e \<Rightarrow> True
    | Inr outs \<Rightarrow> length (concat outs) < 16) \<and>
   (case crypt junk ECBDecipher (c\<lparr>blockSize := 16\<rparr>) ky None [replicate 16 a @ replicate 16 b] of
      Inl e \<Rightarrow> True
    | Inr outs \<Rightarrow> 16 \<le> length (concat outs)) \<and>
   crypt junk ECBCipher sample_ctx [7] None [[1, 2, 3, 4]] = Inr [[11, 10, 9, 8], [11, 11, 11, 11]] \<and>
   crypt junk ECBDecipher sample_ctx [7] None [[11, 10, 9, 8, 11, 11, 11, 11]] = Inr [[1, 2, 3, 4], []] \<and>
   crypt junk ECBDecipher sample_ctx [7] None [[11, 10, 9, 8], [11, 11, 11, 11]] = Inr [[], [], []] \<and>
   crypt junk CTRCipher sample_ctx [7] (Some [0, 0, 0, 255]) [[1, 2, 3, 4, 5, 6]]
     = Inr [[7, 5, 4, 3], [2, 14]] \<and>
   crypt junk CTRDecipher sample_ctx [7] (Some [0, 0, 0, 255]) [[7, 5], [4, 3, 2, 14]]
     = Inr [[], [1, 2, 3, 4, junk 4, junk 5, junk 6, junk 7], [5, 6]] \<and>
   crypt junk CBCCipher sample_ctx [7] (Some [9, 9, 9, 9]) [[1, 2, 3, 4, 5, 6, 7]]
     = Inr [[20, 17, 18, 15], [21, 28, 30, 24]] \<and>
   crypt junk CBCDecipher sample_ctx [7] (Some [9, 9, 9, 9]) [[20, 17, 18, 15, 21, 28, 30, 24]]
     = Inr [[1, 2, 3, 4], [5, 6, 7]] \<and>
   crypt junk CBCDecipher sample_ctx [7] (Some [9, 9, 9, 9]) [[20, 17], [18, 15, 21], [28, 30, 24]]
     = Inl (Error ''Bad decrypt (padding).'')"
proof -
  have sample:
    "crypt junk ECBCipher sample_ctx [7] None [[1, 2, 3, 4]] = Inr [[11, 10, 9, 8], [11, 11, 11, 11]] \<and>
     crypt junk ECBDecipher sample_ctx [7] None [[11, 10, 9, 8, 11, 11, 11, 11]] = Inr [[1, 2, 3, 4], []] \<and>
     crypt junk ECBDecipher sample_ctx [7] None [[11, 10, 9, 8], [11, 11, 11, 11]] = Inr [[], [], []] \<and>
     crypt junk CTRCipher sample_ctx [7] (Some [0, 0, 0, 255]) [[1, 2, 3, 4, 5, 6]]
       = Inr [[7, 5, 4, 3], [2, 14]] \<and>
     crypt junk CTRDecipher sample_ctx [7] (Some [0, 0, 0, 255]) [[7, 5], [4, 3, 2, 14]]
       = Inr [[], [1, 2, 3, 4, junk 4, junk 5, junk 6, junk 7], [5, 6]] \<and>
     crypt junk CBCCipher sample_ctx [7] (Some [9, 9, 9, 9]) [[1, 2, 3, 4, 5, 6, 7]]
       = Inr [[20, 17, 18, 15], [21, 28, 30, 24]] \<and>
     crypt junk CBCDecipher sample_ctx [7] (Some [9, 9, 9, 9]) [[20, 17, 18, 15, 21, 28, 30, 24]]
       = Inr [[1, 2, 3, 4], [5, 6, 7]] \<and>
     crypt junk CBCDecipher sample_ctx [7] (Some [9, 9, 9, 9]) [[20, 17], [18, 15, 21], [28, 30, 24]]
       = Inl (Error ''Bad decrypt (padding).'')"
    by code_simp
  from ECB_split_blocks_lost [of junk c ky a b] ECB_whole_blocks_kept [of junk c ky a b] sample
  show ?thesis by blast
qed

section \<open>Properties of the signature engines\<close>

subsection \<open>Fermat's little theorem, for the inverse \<open>finvm\<close>\<close>

lemma prime_nat_divisors:
  assumes "prime_nat p" "m dvd p"
  shows "m = 1 \<or> m = p"
proof -
  from assms have "0 < p" "m \<le> p" "m \<noteq> 0"
    by (auto simp: prime_nat_def dvd_imp_le intro: Nat.gr0I)
  with assms show ?thesis
    by (cases "m \<in> {2..<p}") (auto simp: prime_nat_def)
qed

lemma prime_nat_coprime:
  assumes "prime_nat p" "\<not> p dvd a"
  shows "coprime p a"
proof -
  have "gcd p a = 1 \<or> gcd p a = p"
    using prime_nat_divisors [OF assms(1), of "gcd p a"] by simp
  moreover have "gcd p a \<noteq> p"
    using assms(2) by (metis gcd_dvd2)
  ultimately show ?thesis
    by (simp add: coprime_iff_gcd_eq_1)
qed

lemma prime_nat_dvd_mult:
  assumes "prime_nat p" "p dvd a * b"
  shows "p dvd a \<or> p dvd b"
  using assms prime_nat_coprime [of p a] coprime_dvd_mult_right_iff [of p a b]
  by blast

lemma prime_nat_fact:
  assumes "prime_nat p" "k < p"
  shows "\<not> p dvd fact k"
  using assms(2)
proof (induction k)
  case 0
  with assms(1) show ?case by (simp add: prime_nat_def)
next
  case (Suc k)
  have "\<not> p dvd Suc k"
    using Suc.prems by (auto dest: dvd_imp_le)
  moreover have "\<not> p dvd fact k"
    using Suc by simp
  ultimately show ?case
    using prime_nat_dvd_mult [OF assms(1), of "Suc k" "fact k"] by auto
qed

lemma prime_nat_choose:
  assumes "prime_nat p" "0 < k" "k < p"
  shows "p dvd (p choose k)"
proof -
  have "fact k * fact (p - k) * (p choose k) = (fact p :: nat)"
    using assms(3) by (simp add: binomial_fact_lemma)
  moreover have "p dvd (fact p :: nat)"
    using assms(1) by (simp add: prime_nat_def dvd_fact)
  ultimately have "p dvd fact k * fact (p - k) * (p choose k)"
    by simp
  then have "p dvd fact k * fact (p - k) \<or> p dvd (p choose k)"
    using prime_nat_dvd_mult [OF assms(1)] by blast
  moreover have "\<not> p dvd fact k * fact (p - k)"
    using prime_nat_dvd_mult [OF assms(1), of "fact k" "fact (p - k)"]
      prime_nat_fact [OF assms(1), of k] prime_nat_fact [OF assms(1), of "p - k"] assms(2,3)
    by auto
  ultimately show ?thesis by blast
qed

lemma fermat_step:
  assumes "prime_nat p"
  shows "(a + 1) ^ p mod p = (a ^ p + 1) mod p"
proof -
  from assms obtain q where q: "p = Suc (Suc q)"
    by (auto simp: prime_nat_def dest: less_imp_Suc_add)
  define f where "f k = (p choose k) * a ^ k" for k
  have "(a + 1) ^ p = (\<Sum>k\<le>p. f k)"
    using binomial [of a 1 p] by (simp add: f_def)
  also have "\<dots> = f 0 + (\<Sum>k\<le>Suc q. f (Suc k))"
    unfolding q by (rule sum.atMost_Suc_shift)
  also have "\<dots> = f 0 + ((\<Sum>k\<le>q. f (Suc k)) + f p)"
    by (simp add: q)
  finally have e: "(a + 1) ^ p = (\<Sum>k\<le>q. f (Suc k)) + (a ^ p + 1)"
    by (simp add: f_def)
  have "p dvd (\<Sum>k\<le>q. f (Suc k))"
  proof (rule dvd_sum)
    fix k assume "k \<in> {..q}"
    then have "p dvd (p choose Suc k)"
      using prime_nat_choose [OF assms, of "Suc k"] by (simp add: q)
    then show "p dvd f (Suc k)"
      by (simp add: f_def)
  qed
  then obtain c where "(\<Sum>k\<le>q. f (Suc k)) = p * c" ..
  with e have "(a + 1) ^ p = p * c + (a ^ p + 1)" by simp
  then show ?thesis by simp
qed

lemma fermat_power:
  assumes "prime_nat p"
  shows "a ^ p mod p = a mod p"
proof (induction a)
  case 0
  from assms have "0 < p" by (simp add: prime_nat_def)
  then show ?case by (simp add: power_0_left)
next
  case (Suc a)
  have "Suc a ^ p mod p = (a ^ p + 1) mod p"
    using fermat_step [OF assms, of a] by simp
  also have "\<dots> = (a ^ p mod p + 1) mod p"
    by (simp add: mod_Suc_eq)
  also have "\<dots> = (a mod p + 1) mod p"
    by (simp add: Suc.IH)
  also have "\<dots> = Suc a mod p"
    by (simp add: mod_Suc_eq)
  finally show ?case .
qed

lemma fermat_little:
  assumes "prime_nat p" "\<not> p dvd a"
  shows "a ^ (p - 1) mod p = 1"
proof -
  from assms(1) have p: "1 < p" by (simp add: prime_nat_def)
  from assms(2) have a: "0 < a" by (cases a) simp_all
  define x where "x = a ^ (p - 1)"
  have x: "1 \<le> x" using a by (simp add: x_def)
  from p have "a ^ p = a * x"
    by (cases p) (simp_all add: x_def)
  then have "a * x mod p = a mod p"
    using fermat_power [OF assms(1), of a] by simp
  moreover have "a \<le> a * x" using x by simp
  ultimately have "p dvd a * x - a"
    by (simp add: mod_eq_dvd_iff_nat)
  moreover have "a * x - a = a * (x - 1)"
    by (simp add: diff_mult_distrib2)
  ultimately have "p dvd a * (x - 1)" by simp
  then have "p dvd x - 1"
    using prime_nat_dvd_mult [OF assms(1), of a "x - 1"] assms(2) by blast
  then have "x mod p = 1 mod p"
    using x mod_eq_dvd_iff_nat [of 1 x p] by simp
  with p show ?thesis by (simp add: x_def)
qed

lemma finvm_inverse:
  assumes "prime_nat n" "0 < b" "b < n"
  shows "b * finvm b n mod n = 1"
proof -
  from assms(1) have n: "1 < n" by (simp add: prime_nat_def)
  have "\<not> n dvd b"
    using assms(2,3) by (auto dest: dvd_imp_le)
  then have "b ^ (n - 1) mod n = 1"
    by (rule fermat_little [OF assms(1)])
  moreover from n obtain m where "n = Suc (Suc m)"
    by (auto dest: less_imp_Suc_add)
  then have "b ^ (n - 1) = b * b ^ (n - 2)"
    by simp
  ultimately show ?thesis
    by (simp add: finvm_def mod_mult_right_eq)
qed

lemma blinded_S_eq:
  assumes "prime_nat n" "0 < b" "b < n"
  shows "blinded_S n r h a b = (r + h * a) mod n"
proof -
  have "(r * b mod n + h * b mod n * a mod n) mod n = (r * b + h * b * a) mod n"
    by (metis mod_add_eq mod_mult_left_eq)
  then have "blinded_S n r h a b = ((r * b + h * b * a) * finvm b n) mod n"
    by (simp add: blinded_S_def Let_def) (metis mod_mult_left_eq)
  also have "(r * b + h * b * a) * finvm b n = (r + h * a) * (b * finvm b n)"
    by (simp add: algebra_simps)
  also have "\<dots> mod n = (r + h * a) * (b * finvm b n mod n) mod n"
    by (simp add: mod_mult_right_eq)
  also have "\<dots> = (r + h * a) mod n"
    by (simp add: finvm_inverse [OF assms])
  finally show ?thesis .
qed

lemma prime_nat_13: "prime_nat 13"
  unfolding prime_nat_def by code_simp

subsection \<open>Scalar blinding\<close>

lemmas toy_simps = toy_curve_def toy_wcurve_def toy_hash_def toy_decode_def toy_decodePoint_def
  toy_splitHash_def toy_clamp_def toy_stretch_def curve.defs wcurve.defs

text \<open>
  C4: the blinded computation of the signature scalar equals the unblinded definition.
  For a prime group order \<open>n\<close> and every blinding factor \<open>b\<close> in \<open>[1, n)\<close>, the value
  \<open>((r * b mod n + (h * b mod n) * a mod n) mod n * bi) mod n\<close>, with \<open>bi\<close> the Fermat
  inverse of \<open>b\<close>, is \<open>(r + h * a) mod n\<close>; so EdDSA \<open>signWithScalar\<close> and Schnorr
  \<open>sign\<close> return the signature of the specification, with \<open>S = (r + h * a) mod n\<close> and
  \<open>S = (k + e * a) mod n\<close>, whatever \<open>b\<close> was drawn.
\<close>

theorem blinded_scalar_is_unblinded:
  "(prime_nat N \<and> 1 \<le> b \<and> b < N \<longrightarrow> blinded_S N r h a b = unblinded_S N r h a) \<and>
   (prime_nat (curve_n C) \<and> 1 \<le> b \<and> b < curve_n C \<longrightarrow>
      EDDSA_signWithScalar C H msg scalar nonce ph cx b
        = EDDSA_signWithScalar_unblinded C H msg scalar nonce ph cx) \<and>
   (prime_nat (curve_n W) \<and> 1 \<le> b \<and> b < curve_n W \<longrightarrow>
      Schnorr_sign W H' msg' ky b = Schnorr_sign_unblinded W H' msg' ky)"
proof (intro conjI impI)
  assume "prime_nat N \<and> 1 \<le> b \<and> b < N"
  then show "blinded_S N r h a b = unblinded_S N r h a"
    by (simp add: blinded_S_eq unblinded_S_def)
next
  assume "prime_nat (curve_n C) \<and> 1 \<le> b \<and> b < curve_n C"
  then have "blinded_S (curve_n C) r h a b = unblinded_S (curve_n C) r h a" for r h a
    by (simp add: blinded_S_eq unblinded_S_def)
  then show "EDDSA_signWithScalar C H msg scalar nonce ph cx b
      = EDDSA_signWithScalar_unblinded C H msg scalar nonce ph cx"
    by (simp add: EDDSA_signWithScalar_def EDDSA_signWithScalar_unblinded_def Let_def
        cong: sum.case_cong if_cong)
next
  assume "prime_nat (curve_n W) \<and> 1 \<le> b \<and> b < curve_n W"
  then have "blinded_S (curve_n W) r h a b = unblinded_S (curve_n W) r h a" for r h a
    by (simp add: blinded_S_eq unblinded_S_def)
  then show "Schnorr_sign W H' msg' ky b = Schnorr_sign_unblinded W H' msg' ky"
    by (simp add: Schnorr_sign_def Schnorr_sign_unblinded_def Let_def
        cong: sum.case_cong if_cong)
qed

text \<open>
  Witness for C4: order 13 with the blinding factor 7, on the scalars and on both
  engines over the small instance.
\<close>

theorem blinded_scalar_is_unblinded_witness:
  "prime_nat 13 \<and> (1::nat) \<le> 7 \<and> (7::nat) < 13 \<and>
   blinded_S 13 5 6 200 7 = 9 \<and> unblinded_S 13 5 6 200 = 9 \<and>
   EDDSA_signWithScalar toy_curve toy_hash [1, 2, 3] [0x48] [186] None None 7 = Inr [11, 8] \<and>
   EDDSA_signWithScalar_unblinded toy_curve toy_hash [1, 2, 3] [0x48] [186] None None = Inr [11, 8] \<and>
   Schnorr_sign toy_wcurve toy_hash [9] [5] 7 = Inr [2, 9] \<and>
   Schnorr_sign_unblinded toy_wcurve toy_hash [9] [5] = Inr [2, 9]"
proof -
  have n: "curve_n toy_curve = 13" "curve_n toy_wcurve = 13"
    by (simp_all add: toy_simps)
  have u: "unblinded_S 13 5 6 200 = 9"
    by (simp add: unblinded_S_def)
  have e: "EDDSA_signWithScalar_unblinded toy_curve toy_hash [1, 2, 3] [0x48] [186] None None = Inr [11, 8]"
    by (simp add: EDDSA_signWithScalar_unblinded_def toy_simps EDDSA_hashInt_def ctx_length_ok_def
        BN_decode_def unblinded_S_def Let_def upt_rec)
  have s: "Schnorr_sign_unblinded toy_wcurve toy_hash [9] [5] = Inr [2, 9]"
    by (simp add: Schnorr_sign_unblinded_def toy_simps Schnorr_hashInt_def
        BN_decode_def unblinded_S_def Let_def upt_rec)
  from blinded_scalar_is_unblinded [of 13 7 5 6 200 toy_curve toy_hash "[1, 2, 3]" "[0x48]" "[186]"
      None None toy_wcurve toy_hash "[9]" "[5]"]
  show ?thesis
    using prime_nat_13 n u e s by simp
qed

subsection \<open>Batch verification of nothing\<close>

text \<open>
  C8: an empty batch verifies. \<open>batchVerify([])\<close> returns true for EdDSA and for
  Schnorr; so does EdDSA's \<open>batchVerify([], ph, ctx)\<close> for every \<open>ph\<close> and \<open>ctx\<close> that
  pass the assertions on the arguments.
\<close>

theorem empty_batch_verifies:
  "EDDSA_batchVerify C H rnd [] None None = Inr True \<and>
   Schnorr_batchVerify W H' rnd' [] = Inr True \<and>
   (args_ok C ph cx \<longrightarrow> EDDSA_batchVerify C H rnd [] ph cx = Inr True)"
  by (simp add: EDDSA_batchVerify_def EDDSA__batchVerify_def Schnorr_batchVerify_def
      Schnorr__batchVerify_def args_ok_def ctx_length_ok_def)

text \<open>
  Witness for C8: the small instance, with and without a pre-hash flag and a context.
\<close>

theorem empty_batch_verifies_witness:
  "args_ok toy_curve (Some True) (Some [1, 1]) \<and>
   EDDSA_batchVerify toy_curve toy_hash (\<lambda>i. 3) [] (Some True) (Some [1, 1]) = Inr True \<and>
   EDDSA_batchVerify toy_curve toy_hash (\<lambda>i. 3) [] None None = Inr True \<and>
   Schnorr_batchVerify toy_wcurve toy_hash (\<lambda>i. 3) [] = Inr True"
proof -
  have a: "args_ok toy_curve (Some True) (Some [1, 1])"
    by (simp add: args_ok_def ctx_length_ok_def)
  from empty_batch_verifies [of toy_curve toy_hash "\<lambda>i. 3" toy_wcurve toy_hash "\<lambda>i. 3"
      "Some True" "Some [1, 1]"] a
  show ?thesis by simp
qed

subsection \<open>What verification throws\<close>


lemmas engine_simps = EDDSA__verify_def EDDSA_hashInt_def EDDSA__batchVerify_def Schnorr__verify_def
  Schnorr_hashInt_def ctx_length_ok_def BN_decode_def js_slice_def js_slice_from_def Let_def upt_rec

lemma dbl_both_numeral:
  "dbl_both C (numeral k) (lhs, rhs) = dbl_both C (pred_numeral k) (point_dbl C lhs, point_dbl C rhs)"
  by (simp add: numeral_eq_Suc)





subsection \<open>Signatures with an unreduced \<open>S\<close>\<close>

text \<open>
  C5: EdDSA \<open>verify\<close> rejects a signature whose trailing bytes decode to an integer
  \<open>S \<ge> n\<close>: it never returns true for it, and it returns false whenever \<open>ph\<close> and
  \<open>ctx\<close> pass the assertions on the arguments. In particular it rejects
  \<open>R || encodeInt(S + n)\<close> for every \<open>R\<close> of the curve's size, where \<open>S + n\<close> still fits
  the encoding (it decodes to itself).
\<close>

theorem verify_rejects_unreduced_S:
  "(\<forall>S. decodeInt C (js_slice_from sig (int (curve_size C))) = Inr S \<and> curve_n C \<le> S \<longrightarrow>
      EDDSA_verify C H msg sig ky ph cx \<noteq> Inr True \<and>
      (args_ok C ph cx \<longrightarrow> EDDSA_verify C H msg sig ky ph cx = Inr False)) \<and>
   (\<forall>(R :: buffer) S. length R = curve_size C \<and>
      decodeInt C (encodeInt C (S + curve_n C)) = Inr (S + curve_n C) \<longrightarrow>
      EDDSA_verify C H msg (R @ encodeInt C (S + curve_n C)) ky ph cx \<noteq> Inr True \<and>
      (args_ok C ph cx \<longrightarrow>
         EDDSA_verify C H msg (R @ encodeInt C (S + curve_n C)) ky ph cx = Inr False))"
proof -
  have reject: "EDDSA_verify C H msg sg ky ph cx \<noteq> Inr True \<and>
      (args_ok C ph cx \<longrightarrow> EDDSA_verify C H msg sg ky ph cx = Inr False)"
    if "decodeInt C (js_slice_from sg (int (curve_size C))) = Inr S" "curve_n C \<le> S" for sg S
    using that
    by (auto simp: EDDSA_verify_def EDDSA__verify_def args_ok_def Let_def split: sum.splits)
  have tail: "js_slice_from (R @ encodeInt C (S + curve_n C)) (int (curve_size C))
      = encodeInt C (S + curve_n C)" if "length R = curve_size C" for R :: buffer and S
    using that by (simp add: js_slice_from_def js_slice_def)
  show ?thesis
    using reject tail by (metis le_add2)
qed

text \<open>
  Witness for C5, on the small instance (\<open>n = 13\<close>): the signature \<open>[10, 5]\<close> of the
  message \<open>[1, 2, 3]\<close> verifies under the key \<open>[12]\<close>; with \<open>S = 5\<close> replaced by
  \<open>5 + 13 = 18\<close> it is rejected.
\<close>

theorem verify_rejects_unreduced_S_witness:
  "args_ok toy_curve None None \<and>
   EDDSA_verify toy_curve toy_hash [1, 2, 3] [10, 5] [12] None None = Inr True \<and>
   length [10 :: byte] = curve_size toy_curve \<and>
   encodeInt toy_curve (5 + curve_n toy_curve) = [18] \<and>
   decodeInt toy_curve (js_slice_from [10, 18] (int (curve_size toy_curve))) = Inr 18 \<and>
   curve_n toy_curve \<le> 18 \<and>
   EDDSA_verify toy_curve toy_hash [1, 2, 3] [10, 18] [12] None None = Inr False \<and>
   EDDSA_verify toy_curve toy_hash [1, 2, 3] ([10] @ encodeInt toy_curve (5 + curve_n toy_curve)) [12]
     None None = Inr False"
proof -
  have a: "args_ok toy_curve None None"
    by (simp add: args_ok_def ctx_length_ok_def)
  have t: "EDDSA_verify toy_curve toy_hash [1, 2, 3] [10, 5] [12] None None = Inr True"
    by (simp add: EDDSA_verify_def engine_simps toy_simps dbl_both_numeral)
  have l: "length [10 :: byte] = curve_size toy_curve"
    by (simp add: toy_simps)
  have e: "encodeInt toy_curve (5 + curve_n toy_curve) = [18]"
    by (simp add: toy_simps)
  have d: "decodeInt toy_curve (js_slice_from [10, 18] (int (curve_size toy_curve))) = Inr 18"
    by (simp add: engine_simps toy_simps)
  have d': "decodeInt toy_curve (encodeInt toy_curve (5 + curve_n toy_curve)) = Inr (5 + curve_n toy_curve)"
    by (simp add: toy_simps)
  have n: "curve_n toy_curve \<le> 18"
    by (simp add: toy_simps)
  from verify_rejects_unreduced_S [of toy_curve "[10, 18]" toy_hash "[1, 2, 3]" "[12]" None None] a d n
  have r1: "EDDSA_verify toy_curve toy_hash [1, 2, 3] [10, 18] [12] None None = Inr False"
    by blast
  from verify_rejects_unreduced_S [of toy_curve _ toy_hash "[1, 2, 3]" "[12]" None None] a l d'
  have r2: "EDDSA_verify toy_curve toy_hash [1, 2, 3] ([10] @ encodeInt toy_curve (5 + curve_n toy_curve))
      [12] None None = Inr False"
    by blast
  from a t l e d n r1 r2 show ?thesis by blast
qed

subsection \<open>\<open>scalarClamp\<close> and its argument\<close>

text \<open>
  C10: \<open>scalarClamp\<close> never mutates its argument. For a buffer of length
  \<open>scalarLength\<close> the call succeeds and leaves every buffer that existed, the argument
  among them, as it was; when the argument is already clamped it is itself returned
  and the store is unchanged; when it is not, the result is a new buffer (an address
  the store did not have) holding the clamped copy of the argument's bytes.
\<close>

theorem scalarClamp_frame:
  "scalar < length h \<and> length (h ! scalar) = curve_scalarLength C \<longrightarrow>
     (\<exists>r h'. EDDSA_scalarClamp C h scalar = Inr (r, h') \<and>
        take (length h) h' = h \<and>
        h' ! scalar = h ! scalar \<and>
        (isClamped C (h ! scalar) \<longrightarrow> r = scalar \<and> h' = h) \<and>
        (\<not> isClamped C (h ! scalar) \<longrightarrow>
           r = length h \<and> h' = h @ [clamp C (h ! scalar)]))"
  by (simp add: EDDSA_scalarClamp_def EDDSA_scalarVerify_def Let_def nth_append)

text \<open>
  Witness for C10, on the small instance: the unclamped buffer \<open>[0x41]\<close> at address 1
  is copied to the new address 3 and clamped there; the clamped buffer \<open>[0x40]\<close> at
  address 2 is returned as it is.
\<close>

theorem scalarClamp_frame_witness:
  "(1::nat) < length [[1], [0x41], [0x40 :: byte]] \<and>
   length ([[1], [0x41], [0x40 :: byte]] ! 1) = curve_scalarLength toy_curve \<and>
   \<not> isClamped toy_curve [0x41] \<and>
   EDDSA_scalarClamp toy_curve [[1], [0x41], [0x40]] 1 = Inr (3, [[1], [0x41], [0x40], [0x40]]) \<and>
   isClamped toy_curve [0x40] \<and>
   EDDSA_scalarClamp toy_curve [[1], [0x41], [0x40]] 2 = Inr (2, [[1], [0x41], [0x40]])"
proof -
  have c1: "\<not> isClamped toy_curve [0x41]" and c2: "isClamped toy_curve [0x40]"
    and c: "clamp toy_curve [0x41] = [0x40]"
    by (simp_all add: toy_simps)
  have l: "curve_scalarLength toy_curve = 1"
    by (simp add: toy_simps)
  from scalarClamp_frame [of 1 "[[1], [0x41], [0x40]]" toy_curve] c1 c l
  have r1: "EDDSA_scalarClamp toy_curve [[1], [0x41], [0x40]] 1 = Inr (3, [[1], [0x41], [0x40], [0x40]])"
    by auto
  from scalarClamp_frame [of 2 "[[1], [0x41], [0x40]]" toy_curve] c2 l
  have r2: "EDDSA_scalarClamp toy_curve [[1], [0x41], [0x40]] 2 = Inr (2, [[1], [0x41], [0x40]])"
    by auto
  from c1 c2 l r1 r2 show ?thesis by simp
qed

subsection \<open>Signing, then verifying\<close>

lemma js_slice_prefix: "js_slice (xs @ ys) 0 (int (length xs)) = xs"
  by (simp add: js_slice_def)

lemma js_slice_from_suffix: "js_slice_from (xs @ ys) (int (length xs)) = ys"
  by (simp add: js_slice_from_def js_slice_def)

lemma dbl_both_same: "dbl_both C k (P, P) = (Q, Q') \<Longrightarrow> Q = Q'"
  by (induction k arbitrary: P) auto

lemma EDDSA_hashInt_succeeds:
  assumes "args_ok C ph cx" "\<forall>items. \<exists>d. hash_final H items (Some (curve_size C * 2)) = Inr d"
  shows "\<exists>r. EDDSA_hashInt C H ph cx items = Inr r"
proof -
  obtain d1 where "hash_final H items (Some (curve_size C * 2)) = Inr d1"
    using assms(2) by blast
  moreover obtain d2 where "hash_final H ([curve_prefix C, [if ph = Some True then 1 else 0]] @
      (case cx of Some c \<Rightarrow> [[of_nat (length c)], c] | None \<Rightarrow> [[0]]) @ items)
      (Some (curve_size C * 2)) = Inr d2"
    using assms(2) by blast
  ultimately show ?thesis
    using assms(1) by (auto simp: EDDSA_hashInt_def args_ok_def Let_def)
qed

text \<open>
  C1: for every secret of the curve's size, every message, and \<open>ph\<close> and \<open>ctx\<close> that
  meet the preconditions of \<open>hashInt\<close>, signing succeeds, \<open>publicKeyCreate\<close> succeeds,
  and \<open>verify\<close> accepts the signature under that public key, whatever blinding factor
  in \<open>[1, n)\<close> signing drew; for every curve and hash that keep the facade contract
  \<open>facade_ok\<close>.
\<close>

theorem sign_then_verify:
  "facade_ok C H \<and> length secret = curve_size C \<and> args_ok C ph cx \<and> 1 \<le> b \<and> b < curve_n C \<longrightarrow>
     (\<exists>sig pub.
        EDDSA_sign C H msg secret ph cx b = Inr sig \<and>
        EDDSA_publicKeyCreate C H secret = Inr pub \<and>
        EDDSA_verify C H msg sig pub ph cx = Inr True)"
proof
  assume asm: "facade_ok C H \<and> length secret = curve_size C \<and> args_ok C ph cx \<and> 1 \<le> b \<and> b < curve_n C"
  define n where "n = curve_n C"
  define G where "G = curve_g C"
  define sz where "sz = curve_size C"
  from asm have ok: "facade_ok C H" and len: "length secret = sz" and args: "args_ok C ph cx"
    and b: "0 < b" "b < n"
    by (simp_all add: n_def sz_def)
  from ok have pr: "prime_nat n"
    and blind: "\<And>k. point_mulBlind C G k = point_mul C G k"
    and order: "\<And>k. point_mul C G (k mod n) = point_mul C G k"
    and madd: "\<And>k l. point_mul C G (k + l) = point_add C (point_mul C G k) (point_mul C G l)"
    and mmul: "\<And>k l. point_mul C (point_mul C G k) l = point_mul C G (k * l)"
    and eq: "\<And>P. point_eq C P P"
    and dec: "\<And>k. decodePoint C (point_encode C (point_mul C G k)) = Inr (point_mul C G k)"
    and plen: "\<And>k. length (point_encode C (point_mul C G k)) = sz"
    and ints: "\<And>s. s < n \<Longrightarrow> decodeInt C (encodeInt C s) = Inr s \<and> length (encodeInt C s) = sz"
    and hfin: "\<forall>items. \<exists>d. hash_final H items (Some (curve_size C * 2)) = Inr d"
    unfolding facade_ok_def n_def G_def sz_def by blast+
  from ok len obtain hash k nonce a where
    dig: "hash_digest H secret (sz * 2) = Inr hash" and
    split: "splitHash C hash = Inr (k, nonce)" and nlen: "length nonce = sz" and
    sc: "decodeScalar C k = Inr a"
    unfolding facade_ok_def sz_def by blast
  from pr have npos: "0 < n" by (simp add: prime_nat_def)
  define A where "A = point_encode C (point_mul C G a)"
  obtain r where r: "EDDSA_hashInt C H ph cx [nonce, msg] = Inr r"
    using EDDSA_hashInt_succeeds [OF args hfin] by blast
  define R where "R = point_encode C (point_mul C G r)"
  obtain h where h: "EDDSA_hashInt C H ph cx [R, A, msg] = Inr h"
    using EDDSA_hashInt_succeeds [OF args hfin] by blast
  define S where "S = (r + h * a) mod n"
  have S: "blinded_S n r h a b = S"
    using blinded_S_eq [OF pr b] by (simp add: S_def)
  have Sn: "S < n" using npos by (simp add: S_def)
  define sig where "sig = R @ encodeInt C S"
  have hk: "EDDSA_hashKey C H secret = Inr hash"
    using len dig by (simp add: EDDSA_hashKey_def sz_def)
  have sign: "EDDSA_sign C H msg secret ph cx b = Inr sig"
    using hk split nlen sc r h S
    by (simp add: EDDSA_sign_def EDDSA_signWithScalar_def blind A_def [symmetric] R_def [symmetric]
        G_def [symmetric] n_def [symmetric] sz_def [symmetric] sig_def Let_def)
  have pub: "EDDSA_publicKeyCreate C H secret = Inr A"
    using hk split sc
    by (simp add: EDDSA_publicKeyCreate_def EDDSA_privateKeyConvert_def EDDSA_publicKeyFromScalar_def
        blind order A_def G_def [symmetric] n_def [symmetric])
  have Rlen: "length R = sz" and Alen: "length A = sz"
    by (simp_all add: R_def A_def plen)
  have siglen: "length sig = sz * 2"
    using ints [OF Sn] Rlen by (simp add: sig_def)
  have Rraw: "js_slice sig 0 (int sz) = R"
    using js_slice_prefix [of R "encodeInt C S"] Rlen by (simp add: sig_def)
  have Sraw: "js_slice_from sig (int sz) = encodeInt C S"
    using js_slice_from_suffix [of R "encodeInt C S"] Rlen by (simp add: sig_def)
  have "point_mul C G S = point_mul C G (r + h * a)"
    unfolding S_def by (rule order)
  also have "\<dots> = point_add C (point_mul C G r) (point_mul C G (a * h))"
    by (simp add: madd mult.commute)
  also have "\<dots> = point_add C (point_mul C G r) (point_mul C (point_mul C G a) h)"
    by (simp add: mmul)
  finally have eqn: "point_mul C G S = point_add C (point_mul C G r) (point_mul C (point_mul C G a) h)" .
  obtain Q Q' where d: "dbl_both C (curve_hc C)
      (point_mul C G S, point_add C (point_mul C G r) (point_mul C (point_mul C G a) h)) = (Q, Q')"
    by (cases "dbl_both C (curve_hc C)
      (point_mul C G S, point_add C (point_mul C G r) (point_mul C (point_mul C G a) h))")
  then have "Q = Q'"
    using dbl_both_same [of C "curve_hc C" "point_mul C G S" Q Q'] eqn by simp
  have decR: "decodePoint C R = Inr (point_mul C G r)"
    and decA: "decodePoint C A = Inr (point_mul C G a)"
    by (simp_all add: R_def A_def dec)
  have decS: "decodeInt C (encodeInt C S) = Inr S"
    using ints [OF Sn] by simp
  have notge: "\<not> curve_n C \<le> S"
    using Sn by (simp add: n_def)
  from d \<open>Q = Q'\<close> have inner: "EDDSA__verify C H msg sig A ph cx = Inr True"
    unfolding EDDSA__verify_def Let_def
    by (simp add: Rraw [unfolded sz_def] Sraw [unfolded sz_def] decR decA decS notge h eq
        G_def [symmetric])
  have "EDDSA_verify C H msg sig A ph cx = Inr True"
    using args siglen Alen inner
    by (simp add: EDDSA_verify_def args_ok_def sz_def)
  with sign pub show "\<exists>sig pub.
        EDDSA_sign C H msg secret ph cx b = Inr sig \<and>
        EDDSA_publicKeyCreate C H secret = Inr pub \<and>
        EDDSA_verify C H msg sig pub ph cx = Inr True"
    by blast
qed

lemma unat_byte_of_nat: "n < 256 \<Longrightarrow> unat (of_nat n :: byte) = n"
  by (simp add: unsigned_of_nat take_bit_nat_eq_self)

lemma toy_facade_ok: "facade_ok toy_curve toy_hash"
proof -
  have p: "prime_nat (curve_n toy_curve)"
    using prime_nat_13 by (simp add: toy_simps)
  have enc: "unat (of_nat (k mod 13) :: byte) = k mod 13" for k :: nat
    by (rule unat_byte_of_nat) (simp add: less_trans [OF mod_less_divisor])
  have dec: "decodePoint toy_curve (point_encode toy_curve (point_mul toy_curve (curve_g toy_curve) k))
      = Inr (point_mul toy_curve (curve_g toy_curve) k)" for k
    by (simp add: toy_simps enc)
  have ints: "s < curve_n toy_curve \<longrightarrow>
      decodeInt toy_curve (encodeInt toy_curve s) = Inr s \<and>
      length (encodeInt toy_curve s) = curve_size toy_curve" for s
    by (simp add: toy_simps unat_byte_of_nat)
  have seed: "length secret = curve_size toy_curve \<longrightarrow>
      (\<exists>hash k nonce a.
        hash_digest toy_hash secret (curve_size toy_curve * 2) = Inr hash \<and>
        splitHash toy_curve hash = Inr (k, nonce) \<and> length nonce = curve_size toy_curve \<and>
        decodeScalar toy_curve k = Inr a)" for secret
    by (simp add: toy_simps upt_rec)
  have fin: "\<exists>d. hash_final toy_hash items (Some (curve_size toy_curve * 2)) = Inr d" for items
    by (simp add: toy_simps)
  have grp: "(\<forall>k. point_mulBlind toy_curve (curve_g toy_curve) k = point_mul toy_curve (curve_g toy_curve) k) \<and>
      (\<forall>k. point_mul toy_curve (curve_g toy_curve) (k mod curve_n toy_curve) = point_mul toy_curve (curve_g toy_curve) k) \<and>
      (\<forall>k l. point_mul toy_curve (curve_g toy_curve) (k + l)
               = point_add toy_curve (point_mul toy_curve (curve_g toy_curve) k) (point_mul toy_curve (curve_g toy_curve) l)) \<and>
      (\<forall>k l. point_mul toy_curve (point_mul toy_curve (curve_g toy_curve) k) l = point_mul toy_curve (curve_g toy_curve) (k * l)) \<and>
      (\<forall>P. point_eq toy_curve P P) \<and>
      (\<forall>k. length (point_encode toy_curve (point_mul toy_curve (curve_g toy_curve) k)) = curve_size toy_curve)"
    by (simp add: toy_simps mod_simps)
  from p dec ints seed fin grp show ?thesis
    unfolding facade_ok_def by blast
qed

text \<open>
  Witness for C1: the small instance keeps the contract; the secret \<open>[5]\<close> signs the
  message \<open>[1, 2, 3]\<close> (blinding factor 7) as \<open>[10, 5]\<close>, its public key is \<open>[12]\<close>, and
  the signature verifies; so does the signature \<open>[1, 7]\<close> made with the pre-hash flag
  and the context \<open>[1, 1]\<close>.
\<close>

theorem sign_then_verify_witness:
  "facade_ok toy_curve toy_hash \<and> length [5 :: byte] = curve_size toy_curve \<and>
   args_ok toy_curve None None \<and> (1 :: nat) \<le> 7 \<and> 7 < curve_n toy_curve \<and>
   EDDSA_sign toy_curve toy_hash [1, 2, 3] [5] None None 7 = Inr [10, 5] \<and>
   EDDSA_publicKeyCreate toy_curve toy_hash [5] = Inr [12] \<and>
   EDDSA_verify toy_curve toy_hash [1, 2, 3] [10, 5] [12] None None = Inr True \<and>
   args_ok toy_curve (Some True) (Some [1, 1]) \<and>
   EDDSA_sign toy_curve toy_hash [1, 2, 3] [5] (Some True) (Some [1, 1]) 7 = Inr [1, 7] \<and>
   EDDSA_verify toy_curve toy_hash [1, 2, 3] [1, 7] [12] (Some True) (Some [1, 1]) = Inr True"
proof -
  have l: "length [5 :: byte] = curve_size toy_curve" and n: "7 < curve_n toy_curve"
    by (simp_all add: toy_simps)
  have a: "args_ok toy_curve None None" and a': "args_ok toy_curve (Some True) (Some [1, 1])"
    by (simp_all add: args_ok_def ctx_length_ok_def)
  have s: "EDDSA_sign toy_curve toy_hash [1, 2, 3] [5] None None 7 = Inr [10, 5]"
    by (simp add: EDDSA_sign_def EDDSA_hashKey_def EDDSA_signWithScalar_def blinded_S_def finvm_def
        engine_simps toy_simps)
  have s': "EDDSA_sign toy_curve toy_hash [1, 2, 3] [5] (Some True) (Some [1, 1]) 7 = Inr [1, 7]"
    by (simp add: EDDSA_sign_def EDDSA_hashKey_def EDDSA_signWithScalar_def blinded_S_def finvm_def
        engine_simps toy_simps)
  have k: "EDDSA_publicKeyCreate toy_curve toy_hash [5] = Inr [12]"
    by (simp add: EDDSA_publicKeyCreate_def EDDSA_privateKeyConvert_def EDDSA_publicKeyFromScalar_def
        EDDSA_hashKey_def engine_simps toy_simps)
  from sign_then_verify [of toy_curve toy_hash "[5]" None None 7 "[1, 2, 3]"] toy_facade_ok l a n
  obtain sig pub where "EDDSA_sign toy_curve toy_hash [1, 2, 3] [5] None None 7 = Inr sig"
    "EDDSA_publicKeyCreate toy_curve toy_hash [5] = Inr pub"
    "EDDSA_verify toy_curve toy_hash [1, 2, 3] sig pub None None = Inr True"
    by auto
  with s k have v: "EDDSA_verify toy_curve toy_hash [1, 2, 3] [10, 5] [12] None None = Inr True"
    by simp
  from sign_then_verify [of toy_curve toy_hash "[5]" "Some True" "Some [1, 1]" 7 "[1, 2, 3]"]
    toy_facade_ok l a' n
  obtain sig' pub' where
    "EDDSA_sign toy_curve toy_hash [1, 2, 3] [5] (Some True) (Some [1, 1]) 7 = Inr sig'"
    "EDDSA_publicKeyCreate toy_curve toy_hash [5] = Inr pub'"
    "EDDSA_verify toy_curve toy_hash [1, 2, 3] sig' pub' (Some True) (Some [1, 1]) = Inr True"
    by auto
  with s' k have v': "EDDSA_verify toy_curve toy_hash [1, 2, 3] [1, 7] [12] (Some True) (Some [1, 1])
      = Inr True"
    by simp
  from toy_facade_ok l a n s k v a' s' v' show ?thesis by simp
qed

end
